theory Spec2Isabelle
  imports Complex_Main "HOL-Library.Monad_Syntax"
begin

section \<open>Data model (types.ts)\<close>

text \<open>
  A JavaScript \<open>number\<close> is an IEEE-754 double. Every finite double is a real number, and
  a number is modelled as a \<^typ>\<open>real\<close>. The offsets and durations that reach the engine are
  the integer millisecond values that the parser computes; their sums, and the halves the
  aligner takes of them, are doubles again, so \<open>+\<close> and \<open>/ 2\<close> on them are the operations of
  the reals.

  The division of the frame scheduler, \<open>1000 / fps\<close> and \<open>offset / frameDuration\<close>, is another
  matter: its result is rounded to a double, and \<open>Math.floor\<close> and \<open>Math.ceil\<close> of the rounded
  quotient can differ from those of the exact one (with \<open>fps = 30\<close> the code computes
  \<open>1000 / (1000 / 30)\<close> as \<open>29.999999999999996\<close>). The division of the code is therefore a
  parameter, \<open>fdiv\<close>, of every definition that divides, and a property proved below holds for
  every function that is given for it. Where a property needs a fact about the division,
  the fact is a hypothesis of the property; the facts used are that the division is exact
  where the quotient is a double, and that it is monotone in the dividend for a positive
  divisor, which both hold of IEEE-754 division, since it rounds the exact quotient to the
  nearest double.

  Frame indices, which the code obtains from \<open>Math.floor\<close> and \<open>Math.ceil\<close>, are \<^typ>\<open>int\<close>.

  A JavaScript string is modelled as the list of its code units, restricted to the 8-bit
  range (\<^typ>\<open>string\<close>). An element of a \<open>string[]\<close> is a \<^typ>\<open>string option\<close>, where
  \<^term>\<open>None\<close> stands for \<open>undefined\<close>, the value JavaScript yields when an array is read
  out of range.

  The field \<open>text\<close> of the interface \<open>TranscriptItem\<close> is called \<open>texts\<close> here, since
  \<open>text\<close> is a keyword of the theory language.
\<close>

record TranscriptItem =
  texts :: "string option list"
  offset :: real
  duration :: real

record VideoConfig =
  width :: real
  height :: real
  configFps :: real
  backgroundColor :: string
  textColor :: string
  fontSize :: real
  fontFamily :: string

section \<open>Frame scheduling (VideoGenerator.generateFrames, lines 121--140)\<close>

text \<open>\<open>const frameDuration = 1000 / fps\<close>.\<close>

type_synonym division = "real \<Rightarrow> real \<Rightarrow> real"

definition frameDuration :: "division \<Rightarrow> real \<Rightarrow> real" where
  "frameDuration fdiv fps = fdiv 1000 fps"

text \<open>\<open>Math.floor(item.offset / frameDuration)\<close> and
  \<open>Math.ceil((item.offset + item.duration) / frameDuration)\<close>.\<close>

definition startFrame :: "division \<Rightarrow> real \<Rightarrow> TranscriptItem \<Rightarrow> int" where
  "startFrame fdiv fps item = \<lfloor>fdiv (offset item) (frameDuration fdiv fps)\<rfloor>"

definition endFrame :: "division \<Rightarrow> real \<Rightarrow> TranscriptItem \<Rightarrow> int" where
  "endFrame fdiv fps item = \<lceil>fdiv (offset item + duration item) (frameDuration fdiv fps)\<rceil>"

text \<open>
  The body of the inner loop: the item is stored at \<open>frame\<close> when the map has no entry
  there, or when the entry it has starts strictly earlier than the item.
\<close>

definition claimFrame ::
  "TranscriptItem \<Rightarrow> int \<Rightarrow> (int \<rightharpoonup> TranscriptItem) \<Rightarrow> (int \<rightharpoonup> TranscriptItem)" where
  "claimFrame item frame frameToItem =
     (case frameToItem frame of
        None \<Rightarrow> frameToItem(frame \<mapsto> item)
      | Some old \<Rightarrow> if offset old < offset item then frameToItem(frame \<mapsto> item) else frameToItem)"

text \<open>\<open>for (let frame = startFrame; frame < endFrame; frame++)\<close>.\<close>

function assignFrames ::
  "TranscriptItem \<Rightarrow> int \<Rightarrow> int \<Rightarrow> (int \<rightharpoonup> TranscriptItem) \<Rightarrow> (int \<rightharpoonup> TranscriptItem)" where
  "assignFrames item frame endF frameToItem =
     (if frame < endF
      then assignFrames item (frame + 1) endF (claimFrame item frame frameToItem)
      else frameToItem)"
  by pat_completeness auto
termination
  by (relation "measure (\<lambda>(item, frame, endF, frameToItem). nat (endF - frame))") auto

declare assignFrames.simps [simp del]

text \<open>\<open>for (const item of transcript)\<close>, starting from the map built so far.\<close>

fun scheduleItems ::
  "division \<Rightarrow> real \<Rightarrow> TranscriptItem list \<Rightarrow> (int \<rightharpoonup> TranscriptItem) \<Rightarrow> (int \<rightharpoonup> TranscriptItem)" where
  "scheduleItems fdiv fps [] frameToItem = frameToItem"
| "scheduleItems fdiv fps (item # rest) frameToItem =
     scheduleItems fdiv fps rest (assignFrames item (startFrame fdiv fps item) (endFrame fdiv fps item) frameToItem)"

text \<open>The map \<open>frameToItem\<close> as it stands when the loop over the transcript has ended.
  Its keys are the 0-based frame numbers; the frame with key \<open>k\<close> is frame \<open>k + 1\<close> of the
  output.\<close>

definition frameToItem :: "division \<Rightarrow> real \<Rightarrow> TranscriptItem list \<Rightarrow> (int \<rightharpoonup> TranscriptItem)" where
  "frameToItem fdiv fps transcript = scheduleItems fdiv fps transcript Map.empty"

datatype error = TypeError | WriteError

text \<open>
  \<open>lastItem = transcript[transcript.length - 1]\<close> is \<open>undefined\<close> for an empty transcript,
  and reading \<open>lastItem.offset\<close> then throws a \<open>TypeError\<close>.
\<close>

definition totalDuration :: "TranscriptItem list \<Rightarrow> error + real" where
  "totalDuration transcript =
     (case transcript of
        [] \<Rightarrow> Inl TypeError
      | _ # _ \<Rightarrow> Inr (offset (last transcript) + duration (last transcript)))"

definition totalFrames :: "division \<Rightarrow> real \<Rightarrow> TranscriptItem list \<Rightarrow> error + int" where
  "totalFrames fdiv fps transcript =
     (case totalDuration transcript of
        Inl e \<Rightarrow> Inl e
      | Inr d \<Rightarrow> Inr \<lceil>fdiv d (frameDuration fdiv fps)\<rceil>)"

text \<open>An item claims the frame \<open>k\<close> when the inner loop visits \<open>k\<close> for it.\<close>

definition claims :: "division \<Rightarrow> real \<Rightarrow> TranscriptItem \<Rightarrow> int \<Rightarrow> bool" where
  "claims fdiv fps item k \<longleftrightarrow> startFrame fdiv fps item \<le> k \<and> k < endFrame fdiv fps item"

section \<open>Strings\<close>

text \<open>The white space that \<open>String.prototype.trim\<close> removes, among the 8-bit code units:
  tab, line feed, vertical tab, form feed, carriage return, space and no-break space.\<close>

definition isWhiteSpace :: "char \<Rightarrow> bool" where
  "isWhiteSpace c \<longleftrightarrow>
     c \<in> set [CHR 0x09, CHR 0x0A, CHR 0x0B, CHR 0x0C, CHR 0x0D, CHR 0x20, CHR 0xA0]"

definition trim :: "string \<Rightarrow> string" where
  "trim s = rev (dropWhile isWhiteSpace (rev (dropWhile isWhiteSpace s)))"

text \<open>\<open>s.split(sep)\<close> for a separator of one code unit: the result is never empty, and
  the empty string splits into one empty string.\<close>

fun splitOn :: "char \<Rightarrow> string \<Rightarrow> string list" where
  "splitOn sep [] = [[]]"
| "splitOn sep (c # cs) =
     (if c = sep then [] # splitOn sep cs
      else (case splitOn sep cs of [] \<Rightarrow> [[c]] | w # ws \<Rightarrow> (c # w) # ws))"

text \<open>\<open>xs.join(sep)\<close> for an array of strings.\<close>

fun joinWith :: "string \<Rightarrow> string list \<Rightarrow> string" where
  "joinWith sep [] = []"
| "joinWith sep [x] = x"
| "joinWith sep (x # y # ys) = x @ sep @ joinWith sep (y # ys)"

section \<open>Cue parser (parseVTT, lines 194--244 of the transcript extractor)\<close>

definition isDigit :: "char \<Rightarrow> bool" where
  "isDigit c \<longleftrightarrow> c \<in> set ''0123456789''"

text \<open>\<open>\d{n}\<close> at the start of the input: the digits matched and the rest.\<close>

fun takeDigits :: "nat \<Rightarrow> string \<Rightarrow> (string \<times> string) option" where
  "takeDigits 0 s = Some ([], s)"
| "takeDigits (Suc n) [] = None"
| "takeDigits (Suc n) (c # cs) =
     (if isDigit c
      then (case takeDigits n cs of None \<Rightarrow> None | Some (ds, rest) \<Rightarrow> Some (c # ds, rest))
      else None)"

text \<open>A literal piece of the pattern at the start of the input: the rest.\<close>

fun takeLiteral :: "string \<Rightarrow> string \<Rightarrow> string option" where
  "takeLiteral [] s = Some s"
| "takeLiteral (p # ps) [] = None"
| "takeLiteral (p # ps) (c # cs) = (if p = c then takeLiteral ps cs else None)"

text \<open>\<open>(\d{2}):(\d{2}):(\d{2})\.(\d{3})\<close> at the start of the input.\<close>

definition matchTimestamp :: "string \<Rightarrow> ((string \<times> string \<times> string \<times> string) \<times> string) option" where
  "matchTimestamp s = do {
     (h, s1) \<leftarrow> takeDigits 2 s;
     s2 \<leftarrow> takeLiteral '':'' s1;
     (m, s3) \<leftarrow> takeDigits 2 s2;
     s4 \<leftarrow> takeLiteral '':'' s3;
     (sec, s5) \<leftarrow> takeDigits 2 s4;
     s6 \<leftarrow> takeLiteral ''.'' s5;
     (ms, s7) \<leftarrow> takeDigits 3 s6;
     Some ((h, m, sec, ms), s7)
   }"

type_synonym timeGroups = "(string \<times> string \<times> string \<times> string) \<times> (string \<times> string \<times> string \<times> string)"

text \<open>The whole of \<open>timeRegex\<close> at the start of the input: the eight capture groups.\<close>

definition matchTimeRegexAt :: "string \<Rightarrow> timeGroups option" where
  "matchTimeRegexAt s = do {
     (startGroups, s1) \<leftarrow> matchTimestamp s;
     s2 \<leftarrow> takeLiteral '' --> '' s1;
     (endGroups, s3) \<leftarrow> matchTimestamp s2;
     Some (startGroups, endGroups)
   }"

text \<open>\<open>line.match(timeRegex)\<close>: the pattern is not anchored, so the match is sought at
  every position of the line, from the left.\<close>

fun timeRegexMatch :: "string \<Rightarrow> timeGroups option" where
  "timeRegexMatch [] = matchTimeRegexAt []"
| "timeRegexMatch (c # cs) =
     (case matchTimeRegexAt (c # cs) of Some g \<Rightarrow> Some g | None \<Rightarrow> timeRegexMatch cs)"

text \<open>\<open>parseInt\<close> on a string of decimal digits.\<close>

definition digitValue :: "char \<Rightarrow> nat" where
  "digitValue c = of_char c - 48"

definition parseInt :: "string \<Rightarrow> nat" where
  "parseInt ds = foldl (\<lambda>n c. 10 * n + digitValue c) 0 ds"

text \<open>\<open>(h * 3600 + m * 60 + s) * 1000 + ms\<close>.\<close>

definition timeMs :: "string \<times> string \<times> string \<times> string \<Rightarrow> nat" where
  "timeMs g = (case g of (h, m, s, ms) \<Rightarrow>
     (parseInt h * 3600 + parseInt m * 60 + parseInt s) * 1000 + parseInt ms)"

text \<open>\<open>s.replace(/<[^>]*>/g, '')\<close>: every \<open><\<close> that has a \<open>>\<close> after it is removed together
  with everything up to the nearest \<open>>\<close>; a \<open><\<close> with no \<open>>\<close> after it stays.\<close>

function stripTags :: "string \<Rightarrow> string" where
  "stripTags [] = []"
| "stripTags (c # cs) =
     (if c = CHR ''<'' \<and> CHR ''>'' \<in> set cs
      then stripTags (drop 1 (dropWhile (\<lambda>x. x \<noteq> CHR ''>'') cs))
      else c # stripTags cs)"
  by pat_completeness auto
termination
proof (relation "measure length")
  fix c :: char and cs :: string
  have "length (dropWhile (\<lambda>x. x \<noteq> CHR ''>'') cs) \<le> length cs"
    by (rule length_dropWhile_le)
  then show "(drop 1 (dropWhile (\<lambda>x. x \<noteq> CHR ''>'') cs), c # cs) \<in> measure length"
    by simp
qed simp_all

text \<open>
  The \<open>while\<close> loop that collects the text of a block. The first argument is the lines from
  index \<open>j\<close> on, the second is \<open>textLines\<close>; the result is \<open>textLines\<close> and the lines from the
  final \<open>j\<close> on.
\<close>

fun collectText :: "string list \<Rightarrow> string list \<Rightarrow> string list \<times> string list" where
  "collectText [] textLines = (textLines, [])"
| "collectText (l # ls) textLines =
     (if trim l \<noteq> []
      then (let cleanLine = trim (stripTags l)
            in collectText ls (if cleanLine \<noteq> [] then textLines @ [cleanLine] else textLines))
      else (textLines, l # ls))"

text \<open>
  The \<open>for\<close> loop over the lines. The first argument is the lines from index \<open>i\<close> on, the
  second is \<open>items\<close>. After a block the loop sets \<open>i = j\<close> and its own \<open>i++\<close> then steps over
  the line at \<open>j\<close>.
\<close>

function parseLines :: "string list \<Rightarrow> TranscriptItem list \<Rightarrow> TranscriptItem list" where
  "parseLines [] items = items"
| "parseLines (l # ls) items =
     (case timeRegexMatch (trim l) of
        None \<Rightarrow> parseLines ls items
      | Some (startGroups, endGroups) \<Rightarrow>
          (let currentStart = timeMs startGroups;
               currentEnd = timeMs endGroups;
               block = collectText ls []
           in parseLines (drop 1 (snd block))
                (if fst block \<noteq> []
                 then items @ [\<lparr>texts = [Some (joinWith '' '' (fst block))],
                                offset = real currentStart,
                                duration = real_of_int (int currentEnd - int currentStart)\<rparr>]
                 else items)))"
  by pat_completeness auto
termination
proof -
  have shrink: "length (snd (collectText xs acc)) \<le> length xs" for xs acc
    by (induction xs arbitrary: acc) (auto simp: Let_def intro: le_SucI)
  have step: "length (snd (collectText ls [])) - Suc 0 < Suc (length ls)" for ls
    using shrink [of ls "[]"] by simp
  show ?thesis
    by (relation "measure (\<lambda>(ls, items). length ls)") (simp_all add: step)
qed

text \<open>\<open>const lines = vttContent.split('\n')\<close>, then the loop from \<open>i = 0\<close> with no items.\<close>

definition parseVTT :: "string \<Rightarrow> TranscriptItem list" where
  "parseVTT vttContent = parseLines (splitOn CHR 0x0A vttContent) []"

text \<open>
  The header lines that \<open>timeRegex\<close> is written for: two time stamps, each of two digits for
  the hours, two for the minutes, two for the seconds and three for the milliseconds, with
  \<open>-->\<close> between them. These two definitions describe inputs; they are not part of the
  parser.
\<close>

definition wellFormedTime :: "string \<times> string \<times> string \<times> string \<Rightarrow> bool" where
  "wellFormedTime g = (case g of (h, m, s, ms) \<Rightarrow>
     length h = 2 \<and> length m = 2 \<and> length s = 2 \<and> length ms = 3 \<and>
     list_all isDigit h \<and> list_all isDigit m \<and> list_all isDigit s \<and> list_all isDigit ms)"

definition timestampText :: "string \<times> string \<times> string \<times> string \<Rightarrow> string" where
  "timestampText g = (case g of (h, m, s, ms) \<Rightarrow> h @ '':'' @ m @ '':'' @ s @ ''.'' @ ms)"

definition headerLine ::
  "string \<times> string \<times> string \<times> string \<Rightarrow> string \<times> string \<times> string \<times> string \<Rightarrow> string" where
  "headerLine startGroups endGroups = timestampText startGroups @ '' --> '' @ timestampText endGroups"

section \<open>Track aligner (downloadTranscript, lines 153--191 of the transcript extractor)\<close>

text \<open>One element of \<open>transcripts\<close>: a language code and the items parsed for it.\<close>

record LangTranscript =
  lang :: string
  items :: "TranscriptItem list"

text \<open>\<open>item.text[0]\<close>: \<open>undefined\<close> when the array is empty.\<close>

definition firstText :: "TranscriptItem \<Rightarrow> string option" where
  "firstText item = (case texts item of [] \<Rightarrow> None | t # _ \<Rightarrow> t)"

text \<open>The base items, each with the text of the base language alone.\<close>

definition baseItems :: "TranscriptItem list \<Rightarrow> TranscriptItem list" where
  "baseItems baseTranscript =
     map (\<lambda>item. \<lparr>texts = [firstText item], offset = offset item, duration = duration item\<rparr>)
       baseTranscript"

text \<open>\<open>currentLang.items.find(item => baseMid >= item.offset && baseMid <= item.offset + item.duration)\<close>.\<close>

definition findMatch :: "real \<Rightarrow> TranscriptItem list \<Rightarrow> TranscriptItem option" where
  "findMatch baseMid currentItems =
     List.find (\<lambda>item. baseMid \<ge> offset item \<and> baseMid \<le> offset item + duration item) currentItems"

text \<open>What is pushed for a language: \<open>match.text[0]\<close> when there is a match whose text
  array is not empty, the empty string otherwise.\<close>

definition matchText :: "TranscriptItem option \<Rightarrow> string option" where
  "matchText match =
     (case match of
        None \<Rightarrow> Some []
      | Some item \<Rightarrow> (case texts item of [] \<Rightarrow> Some [] | t # _ \<Rightarrow> t))"

text \<open>The body of the loop over \<open>j\<close>, for one merged item.\<close>

definition addMatch :: "TranscriptItem list \<Rightarrow> TranscriptItem \<Rightarrow> TranscriptItem" where
  "addMatch currentItems baseItem =
     (let baseMid = offset baseItem + duration baseItem / 2;
          match = findMatch baseMid currentItems
      in baseItem\<lparr>texts := texts baseItem @ [matchText match]\<rparr>)"

text \<open>The loop over \<open>j\<close>: every merged item receives one more text, in place.\<close>

definition addLanguage :: "TranscriptItem list \<Rightarrow> LangTranscript \<Rightarrow> TranscriptItem list" where
  "addLanguage mergedItems currentLang = map (addMatch (items currentLang)) mergedItems"

text \<open>The merge: no transcript gives no items; otherwise the first transcript is the base
  and the loop over \<open>i\<close> adds the others in order.\<close>

definition mergeTranscripts :: "LangTranscript list \<Rightarrow> TranscriptItem list" where
  "mergeTranscripts transcripts =
     (case transcripts of
        [] \<Rightarrow> []
      | baseTranscript # others \<Rightarrow> foldl addLanguage (baseItems (items baseTranscript)) others)"

section \<open>Renderer (VideoGenerator.renderFrame, lines 53--110)\<close>

text \<open>
  The image of a frame is described by what was drawn: the background colour that fills the
  canvas and the calls of \<open>renderPixelatedText\<close>, each with its text, position and font size.
  The two quotients that are rounded, \<open>width / (fontSize * 0.6)\<close> and
  \<open>height / (totalLanguages + 1)\<close>, are taken with the division \<open>fdiv\<close>; the halves are exact.
  The products and sums that place the text are written with the operations of the reals;
  no property below is about a position.
\<close>

record TextDraw =
  drawnText :: string
  drawX :: real
  drawY :: real
  drawFontSize :: real

record Buffer =
  background :: string
  drawn :: "TextDraw list"

text \<open>\<open>!t || t.trim() === ''\<close>.\<close>

definition isBlankText :: "string option \<Rightarrow> bool" where
  "isBlankText t = (case t of None \<Rightarrow> True | Some s \<Rightarrow> s = [] \<or> trim s = [])"

text \<open>
  \<open>maxCharsPerLine = Math.floor(width / (fontSize * 0.6))\<close>. When the divisor is \<open>0\<close> the
  quotient is no finite number: it is \<open>Infinity\<close> for a positive width, \<open>NaN\<close> for the width
  \<open>0\<close> and \<open>-Infinity\<close> for a negative width, and \<open>Math.floor\<close> returns it as it is.
\<close>

datatype lineLimit = AtMost int | PlusInfinity | MinusInfinity | NotANumber

definition maxCharsPerLine :: "division \<Rightarrow> VideoConfig \<Rightarrow> lineLimit" where
  "maxCharsPerLine fdiv config =
     (let divisor = fontSize config * (6 / 10)
      in if divisor = 0
         then (if 0 < width config then PlusInfinity
               else if width config = 0 then NotANumber
               else MinusInfinity)
         else AtMost \<lfloor>fdiv (width config) divisor\<rfloor>)"

text \<open>\<open>testLine.length <= maxCharsPerLine\<close>: a length is below \<open>Infinity\<close>, not below
  \<open>-Infinity\<close>, and a comparison with \<open>NaN\<close> is false.\<close>

fun withinLimit :: "nat \<Rightarrow> lineLimit \<Rightarrow> bool" where
  "withinLimit n (AtMost m) \<longleftrightarrow> int n \<le> m"
| "withinLimit n PlusInfinity \<longleftrightarrow> True"
| "withinLimit n MinusInfinity \<longleftrightarrow> False"
| "withinLimit n NotANumber \<longleftrightarrow> False"

text \<open>The loop over the words of a text, with \<open>currentLine\<close> and \<open>lines\<close>, and the push of the
  last line after it.\<close>

fun wrapWords :: "lineLimit \<Rightarrow> string list \<Rightarrow> string \<Rightarrow> string list \<Rightarrow> string list" where
  "wrapWords limit [] currentLine lines =
     (if currentLine \<noteq> [] then lines @ [currentLine] else lines)"
| "wrapWords limit (word # ws) currentLine lines =
     (let testLine = (if currentLine \<noteq> [] then currentLine @ '' '' @ word else word)
      in if withinLimit (length testLine) limit
         then wrapWords limit ws testLine lines
         else wrapWords limit ws word
                (if currentLine \<noteq> [] then lines @ [currentLine] else lines))"

text \<open>The body of \<open>textLines.forEach\<close> for the language at \<open>langIndex\<close>.\<close>

definition renderLanguage ::
  "division \<Rightarrow> VideoConfig \<Rightarrow> nat \<Rightarrow> nat \<Rightarrow> string option \<Rightarrow> TextDraw list" where
  "renderLanguage fdiv config totalLanguages langIndex t =
     (case t of
        None \<Rightarrow> []
      | Some txt \<Rightarrow>
          if txt = [] \<or> trim txt = [] then []
          else
            (let spacing = fdiv (height config) (real totalLanguages + 1);
                 ws = splitOn CHR '' '' txt;
                 lines = wrapWords (maxCharsPerLine fdiv config) ws [] [];
                 displayLines = take 2 lines;
                 lineHeight = fontSize config * (12 / 10);
                 totalBlockHeight = real (length displayLines) * lineHeight;
                 centerY = spacing * (real langIndex + 1);
                 startY = centerY - totalBlockHeight / 2 + lineHeight / 2
             in map (\<lambda>(lineIndex, line).
                       \<lparr>drawnText = line,
                        drawX = width config / 2,
                        drawY = startY + real lineIndex * lineHeight,
                        drawFontSize = (if langIndex = 0 then fontSize config
                                        else fontSize config * (8 / 10))\<rparr>)
                  (enumerate 0 displayLines)))"

definition renderFrame :: "division \<Rightarrow> VideoConfig \<Rightarrow> string option list \<Rightarrow> Buffer" where
  "renderFrame fdiv config textLines =
     (if textLines = [] \<or> list_all isBlankText textLines
      then \<lparr>background = backgroundColor config, drawn = []\<rparr>
      else \<lparr>background = backgroundColor config,
            drawn = concat (map (\<lambda>(langIndex, t).
                                   renderLanguage fdiv config (length textLines) langIndex t)
                              (enumerate 0 textLines))\<rparr>)"

section \<open>Frame pipeline driver (VideoGenerator.generateFrames, lines 143--169)\<close>

text \<open>
  The world the driver runs in: the files that exist, with their contents; the paths at
  which \<open>writeFile\<close> is rejected; and two traces, the calls of the progress callback and
  the calls of \<open>renderFrame\<close> (with the value of \<open>frameNumber\<close> at the call).
\<close>

record World =
  files :: "string \<rightharpoonup> Buffer"
  writeRejected :: "string \<Rightarrow> bool"
  progress :: "(int \<times> int \<times> string) list"
  renderCalls :: "(int \<times> string option list) list"

definition existsSync :: "World \<Rightarrow> string \<Rightarrow> bool" where
  "existsSync w path \<longleftrightarrow> files w path \<noteq> None"

definition writeFile :: "string \<Rightarrow> Buffer \<Rightarrow> World \<Rightarrow> error + World" where
  "writeFile path buf w =
     (if writeRejected w path then Inl WriteError else Inr (w\<lparr>files := (files w)(path \<mapsto> buf)\<rparr>))"

text \<open>\<open>String(n)\<close> for a natural number, and \<open>s.padStart(n, c)\<close>.\<close>

fun numberToString :: "nat \<Rightarrow> string" where
  "numberToString n =
     (if n < 10 then [char_of (48 + n)]
      else numberToString (n div 10) @ [char_of (48 + n mod 10)])"

declare numberToString.simps [simp del]

definition padStart :: "nat \<Rightarrow> char \<Rightarrow> string \<Rightarrow> string" where
  "padStart n c s = replicate (n - length s) c @ s"

text \<open>The path of a frame. \<open>join\<close> of the module \<open>path\<close> is a parameter.\<close>

definition framePath :: "(string \<Rightarrow> string \<Rightarrow> string) \<Rightarrow> string \<Rightarrow> int \<Rightarrow> string" where
  "framePath join framesDir frameNumber =
     join framesDir (''frame_'' @ padStart 8 CHR ''0'' (numberToString (nat (frameNumber + 1))) @ ''.png'')"

text \<open>\<open>if (onFrameGenerated) onFrameGenerated(frameNumber + 1, totalFrames, framePath)\<close>;
  the flag says whether the caller gave a callback.\<close>

definition notify :: "bool \<Rightarrow> int \<times> int \<times> string \<Rightarrow> World \<Rightarrow> World" where
  "notify onFrameGenerated event w =
     (if onFrameGenerated then w\<lparr>progress := progress w @ [event]\<rparr> else w)"

text \<open>\<open>item ? item.text : []\<close> for \<open>item = frameToItem.get(frameNumber)\<close>.\<close>

definition textLinesAt :: "(int \<rightharpoonup> TranscriptItem) \<Rightarrow> int \<Rightarrow> string option list" where
  "textLinesAt schedule frameNumber =
     (case schedule frameNumber of None \<Rightarrow> [] | Some item \<Rightarrow> texts item)"

text \<open>The body of the loop over \<open>frameNumber\<close>.\<close>

definition generateFrame ::
  "division \<Rightarrow> (string \<Rightarrow> string \<Rightarrow> string) \<Rightarrow> VideoConfig \<Rightarrow> (int \<rightharpoonup> TranscriptItem) \<Rightarrow> string \<Rightarrow> bool \<Rightarrow>
     int \<Rightarrow> int \<Rightarrow> World \<Rightarrow> error + World" where
  "generateFrame fdiv join config schedule framesDir onFrameGenerated totalF frameNumber w =
     (let textLines = textLinesAt schedule frameNumber;
          path = framePath join framesDir frameNumber
      in if existsSync w path
         then Inr (notify onFrameGenerated (frameNumber + 1, totalF, path) w)
         else
           (let frameBuffer = renderFrame fdiv config textLines;
                w1 = w\<lparr>renderCalls := renderCalls w @ [(frameNumber, textLines)]\<rparr>
            in case writeFile path frameBuffer w1 of
                 Inl e \<Rightarrow> Inl e
               | Inr w2 \<Rightarrow> Inr (notify onFrameGenerated (frameNumber + 1, totalF, path) w2)))"

text \<open>\<open>for (let frameNumber = 0; frameNumber < totalFrames; frameNumber++)\<close>, from the
  current \<open>frameNumber\<close>; an error ends the loop.\<close>

function frameLoop ::
  "division \<Rightarrow> (string \<Rightarrow> string \<Rightarrow> string) \<Rightarrow> VideoConfig \<Rightarrow> (int \<rightharpoonup> TranscriptItem) \<Rightarrow> string \<Rightarrow> bool \<Rightarrow>
     int \<Rightarrow> int \<Rightarrow> World \<Rightarrow> error + World" where
  "frameLoop fdiv join config schedule framesDir onFrameGenerated totalF frameNumber w =
     (if frameNumber < totalF
      then (case generateFrame fdiv join config schedule framesDir onFrameGenerated totalF frameNumber w of
              Inl e \<Rightarrow> Inl e
            | Inr w' \<Rightarrow>
                frameLoop fdiv join config schedule framesDir onFrameGenerated totalF (frameNumber + 1) w')
      else Inr w)"
  by pat_completeness auto
termination
  by (relation "measure (\<lambda>(fdiv, join, config, schedule, framesDir, cb, totalF, frameNumber, w).
        nat (totalF - frameNumber))") auto

declare frameLoop.simps [simp del]

text \<open>The whole of \<open>generateFrames\<close>: the result \<open>{ totalFrames, duration }\<close> and the world
  after the run, or the error that ended it.\<close>

definition generateFrames ::
  "division \<Rightarrow> (string \<Rightarrow> string \<Rightarrow> string) \<Rightarrow> VideoConfig \<Rightarrow> TranscriptItem list \<Rightarrow> string \<Rightarrow> real \<Rightarrow> bool \<Rightarrow>
     World \<Rightarrow> error + ((int \<times> real) \<times> World)" where
  "generateFrames fdiv join config transcript framesDir fps onFrameGenerated w =
     (case totalDuration transcript of
        Inl e \<Rightarrow> Inl e
      | Inr d \<Rightarrow>
          (case totalFrames fdiv fps transcript of
             Inl e \<Rightarrow> Inl e
           | Inr totalF \<Rightarrow>
               (case frameLoop fdiv join config (frameToItem fdiv fps transcript) framesDir
                       onFrameGenerated totalF 0 w of
                  Inl e \<Rightarrow> Inl e
                | Inr w' \<Rightarrow> Inr ((totalF, d), w'))))"

section \<open>Concrete inputs for the examples\<close>

text \<open>A \<open>join\<close> for a plain directory name and a plain file name.\<close>

definition simpleJoin :: "string \<Rightarrow> string \<Rightarrow> string" where
  "simpleJoin dir name = dir @ ''/'' @ name"

definition demoConfig :: VideoConfig where
  "demoConfig = \<lparr>width = 1280, height = 720, configFps = 30, backgroundColor = ''#000000'',
     textColor = ''#FFFFFF'', fontSize = 48, fontFamily = ''Pixelify Sans''\<rparr>"

text \<open>An empty frames directory in which every write succeeds, and empty traces.\<close>

definition emptyWorld :: World where
  "emptyWorld = \<lparr>files = Map.empty, writeRejected = (\<lambda>path. False), progress = [], renderCalls = []\<rparr>"

section \<open>Properties of the frame scheduler\<close>

text \<open>What the inner loop and the loop over the transcript leave at one key of the map.\<close>

lemma claimFrame_same:
  "claimFrame item k m k =
     (case m k of None \<Rightarrow> Some item
      | Some old \<Rightarrow> if offset old < offset item then Some item else Some old)"
  by (simp add: claimFrame_def split: option.splits)

lemma claimFrame_other: "k \<noteq> a \<Longrightarrow> claimFrame item a m k = m k"
  by (simp add: claimFrame_def split: option.splits)

lemma assignFrames_apply:
  "assignFrames item a b m k = (if a \<le> k \<and> k < b then claimFrame item k m k else m k)"
proof (induction item a b m rule: assignFrames.induct)
  case (1 item frame endF m)
  show ?case
  proof (cases "frame < endF")
    case False
    then show ?thesis by (auto simp: assignFrames.simps [of item frame endF m])
  next
    case True
    have step: "assignFrames item frame endF m k =
        (if frame + 1 \<le> k \<and> k < endF
         then claimFrame item k (claimFrame item frame m) k
         else claimFrame item frame m k)"
      using True "1.IH" by (simp add: assignFrames.simps [of item frame endF m])
    show ?thesis
    proof (cases "k = frame")
      case True
      with \<open>frame < endF\<close> step show ?thesis by simp
    next
      case False
      then have "claimFrame item k (claimFrame item frame m) k = claimFrame item k m k"
        by (simp add: claimFrame_same claimFrame_other)
      with False step show ?thesis by (auto simp: claimFrame_other)
    qed
  qed
qed

lemma scheduleItems_unclaimed:
  "\<forall>e\<in>set timeline. \<not> claims fdiv fps e k \<Longrightarrow> scheduleItems fdiv fps timeline m k = m k"
  by (induction timeline arbitrary: m) (auto simp: assignFrames_apply claims_def)

lemma scheduleItems_source:
  "scheduleItems fdiv fps timeline m k = Some w \<Longrightarrow>
     m k = Some w \<or> (w \<in> set timeline \<and> claims fdiv fps w k)"
proof (induction timeline arbitrary: m)
  case Nil
  then show ?case by simp
next
  case (Cons item rest)
  let ?m' = "assignFrames item (startFrame fdiv fps item) (endFrame fdiv fps item) m"
  from Cons.prems have "scheduleItems fdiv fps rest ?m' k = Some w" by simp
  from Cons.IH [OF this] show ?case
    by (auto simp: assignFrames_apply claimFrame_same claims_def split: if_splits option.splits)
qed

lemma scheduleItems_keeps:
  "m k = Some v \<Longrightarrow> \<exists>w. scheduleItems fdiv fps timeline m k = Some w \<and> offset v \<le> offset w"
proof (induction timeline arbitrary: m v)
  case Nil
  then show ?case by simp
next
  case (Cons item rest)
  let ?m' = "assignFrames item (startFrame fdiv fps item) (endFrame fdiv fps item) m"
  from Cons.prems have "\<exists>v'. ?m' k = Some v' \<and> offset v \<le> offset v'"
    by (simp add: assignFrames_apply claimFrame_same)
  then obtain v' where v': "?m' k = Some v'" "offset v \<le> offset v'"
    by blast
  from Cons.IH [of ?m' v'] v' show ?case by fastforce
qed

lemma scheduleItems_covered:
  "e \<in> set timeline \<Longrightarrow> claims fdiv fps e k \<Longrightarrow>
     \<exists>w. scheduleItems fdiv fps timeline m k = Some w \<and> offset e \<le> offset w"
proof (induction timeline arbitrary: m)
  case Nil
  then show ?case by simp
next
  case (Cons item rest)
  let ?m' = "assignFrames item (startFrame fdiv fps item) (endFrame fdiv fps item) m"
  show ?case
  proof (cases "e = item")
    case True
    with Cons.prems have "\<exists>v. ?m' k = Some v \<and> offset e \<le> offset v"
      by (auto simp: assignFrames_apply claimFrame_same claims_def split: option.splits)
    then obtain v where v: "?m' k = Some v" "offset e \<le> offset v"
      by blast
    from scheduleItems_keeps [of ?m' k v fdiv fps rest] v show ?thesis by fastforce
  next
    case False
    with Cons.prems have "e \<in> set rest" by simp
    from Cons.IH [OF this Cons.prems(2), of ?m'] show ?thesis by simp
  qed
qed

lemma frameToItem_single:
  "frameToItem fdiv fps [e] k = (if claims fdiv fps e k then Some e else None)"
  by (simp add: frameToItem_def assignFrames_apply claimFrame_same claims_def)

lemma frameToItem_source:
  "frameToItem fdiv fps timeline k = Some e \<Longrightarrow> e \<in> set timeline \<and> claims fdiv fps e k"
  using scheduleItems_source [of fdiv fps timeline Map.empty k e] by (simp add: frameToItem_def)

lemma frameToItem_defined:
  "frameToItem fdiv fps timeline k \<noteq> None \<longleftrightarrow> (\<exists>e\<in>set timeline. claims fdiv fps e k)"
proof
  assume "frameToItem fdiv fps timeline k \<noteq> None"
  then obtain w where "frameToItem fdiv fps timeline k = Some w" by blast
  from frameToItem_source [OF this] show "\<exists>e\<in>set timeline. claims fdiv fps e k" by blast
next
  assume "\<exists>e\<in>set timeline. claims fdiv fps e k"
  then obtain e where "e \<in> set timeline" "claims fdiv fps e k" by blast
  from scheduleItems_covered [OF this, of Map.empty]
  show "frameToItem fdiv fps timeline k \<noteq> None" by (auto simp: frameToItem_def)
qed

lemma claims_iff:
  "claims fdiv fps e k \<longleftrightarrow>
     \<lfloor>fdiv (offset e) (fdiv 1000 fps)\<rfloor> \<le> k \<and>
     k < \<lceil>fdiv (offset e + duration e) (fdiv 1000 fps)\<rceil>"
  by (simp add: claims_def startFrame_def endFrame_def frameDuration_def)

lemma dom_frameToItem_single:
  "dom (frameToItem fdiv fps [e]) = {k. claims fdiv fps e k}"
  by (auto simp: frameToItem_single dom_def)

lemma frameToItem_greatest:
  assumes "e \<in> set timeline" and "claims fdiv fps e k"
  shows "\<exists>w. frameToItem fdiv fps timeline k = Some w \<and> w \<in> set timeline \<and>
           claims fdiv fps w k \<and> (\<forall>c\<in>set timeline. claims fdiv fps c k \<longrightarrow> offset c \<le> offset w)"
proof -
  from scheduleItems_covered [OF assms, of Map.empty]
  obtain w where w: "frameToItem fdiv fps timeline k = Some w"
    by (auto simp: frameToItem_def)
  have "offset c \<le> offset w" if "c \<in> set timeline" and "claims fdiv fps c k" for c
    using scheduleItems_covered [OF that, of Map.empty] w by (auto simp: frameToItem_def)
  with w frameToItem_source [OF w] show ?thesis by blast
qed

text \<open>
  Claim C2, as stated, fails when a third entry claims the frame: at one frame per second
  the entries that start at \<open>0\<close> and at \<open>1000\<close> both claim the frame with key \<open>2\<close> and have
  offsets \<open>o1 < o2\<close>, and the frame goes to the entry that starts at \<open>2000\<close>. (The quotients
  of this example are whole numbers, which the division of the code gives exactly.)
\<close>

theorem overlap_third_claimant_counterexample:
  "claims (/) 1 \<lparr>texts = [Some ''first''], offset = 0, duration = 5000\<rparr> 2
   \<and> claims (/) 1 \<lparr>texts = [Some ''second''], offset = 1000, duration = 5000\<rparr> 2
   \<and> offset \<lparr>texts = [Some ''first''], offset = 0, duration = 5000\<rparr>
       < offset \<lparr>texts = [Some ''second''], offset = 1000, duration = 5000\<rparr>
   \<and> frameToItem (/) 1 [\<lparr>texts = [Some ''first''], offset = 0, duration = 5000\<rparr>,
                         \<lparr>texts = [Some ''second''], offset = 1000, duration = 5000\<rparr>,
                         \<lparr>texts = [Some ''third''], offset = 2000, duration = 5000\<rparr>] 2
       = Some \<lparr>texts = [Some ''third''], offset = 2000, duration = 5000\<rparr>"
  by (simp add: claims_iff frameToItem_def assignFrames_apply claimFrame_same startFrame_def
      endFrame_def frameDuration_def)

text \<open>
  Claim C2, amended. Overlap resolution: when two entries of the timeline both claim the
  frame \<open>k\<close>, with offsets \<open>o1 < o2\<close>, the schedule maps \<open>k\<close> to an entry that claims \<open>k\<close> and
  whose offset is the greatest among all the entries that claim \<open>k\<close>; so it is never the entry
  with offset \<open>o1\<close>, and it is the entry with offset \<open>o2\<close> when every other entry that claims
  \<open>k\<close> has a smaller offset than \<open>o2\<close>, wherever the entries stand in the timeline.
\<close>

theorem overlap_greatest_offset_wins:
  assumes "0 < fps"
    and "e1 \<in> set timeline" and "e2 \<in> set timeline"
    and "claims fdiv fps e1 k" and "claims fdiv fps e2 k"
    and "offset e1 < offset e2"
  shows "\<exists>w. frameToItem fdiv fps timeline k = Some w \<and> w \<in> set timeline \<and> claims fdiv fps w k
           \<and> (\<forall>c\<in>set timeline. claims fdiv fps c k \<longrightarrow> offset c \<le> offset w)
           \<and> w \<noteq> e1
           \<and> ((\<forall>c\<in>set timeline. claims fdiv fps c k \<and> c \<noteq> e2 \<longrightarrow> offset c < offset e2)
                \<longrightarrow> w = e2)"
proof -
  from frameToItem_greatest [OF assms(3) assms(5)]
  obtain w where w: "frameToItem fdiv fps timeline k = Some w" "w \<in> set timeline"
      "claims fdiv fps w k"
    and top: "\<forall>c\<in>set timeline. claims fdiv fps c k \<longrightarrow> offset c \<le> offset w"
    by blast
  from top assms(3,5) have "offset e2 \<le> offset w" by blast
  with assms(6) have ne: "w \<noteq> e1" by auto
  have last: "w = e2"
    if "\<forall>c\<in>set timeline. claims fdiv fps c k \<and> c \<noteq> e2 \<longrightarrow> offset c < offset e2"
  proof (rule ccontr)
    assume "w \<noteq> e2"
    with that w(2,3) have "offset w < offset e2" by blast
    with \<open>offset e2 \<le> offset w\<close> show False by simp
  qed
  from w top ne last show ?thesis by blast
qed

text \<open>A pair that overlaps on the frame with key \<open>1\<close> at one frame per second, in its two
  orders. (The quotients are whole numbers, which the division of the code gives exactly.)\<close>

theorem overlap_greatest_offset_wins_witness:
  "frameToItem (/) 1 [\<lparr>texts = [Some ''late''], offset = 1000, duration = 2000\<rparr>,
                        \<lparr>texts = [Some ''early''], offset = 0, duration = 2000\<rparr>] 1
     = Some \<lparr>texts = [Some ''late''], offset = 1000, duration = 2000\<rparr>
   \<and> frameToItem (/) 1 [\<lparr>texts = [Some ''early''], offset = 0, duration = 2000\<rparr>,
                        \<lparr>texts = [Some ''late''], offset = 1000, duration = 2000\<rparr>] 1
     = Some \<lparr>texts = [Some ''late''], offset = 1000, duration = 2000\<rparr>"
proof -
  let ?early = "\<lparr>texts = [Some ''early''], offset = 0, duration = 2000\<rparr>"
  let ?late = "\<lparr>texts = [Some ''late''], offset = 1000, duration = 2000\<rparr>"
  have pos: "(0::real) < 1" by simp
  have ce: "claims (/) 1 ?early 1" and cl: "claims (/) 1 ?late 1"
    by (simp_all add: claims_iff)
  have lt: "offset ?early < offset ?late" by simp
  have only: "\<forall>c\<in>set tl. claims (/) 1 c 1 \<and> c \<noteq> ?late \<longrightarrow> offset c < offset ?late"
    if "set tl = {?early, ?late}" for tl
    using that by simp
  have a: "frameToItem (/) 1 [?late, ?early] 1 = Some ?late"
    using overlap_greatest_offset_wins [OF pos _ _ ce cl lt, of "[?late, ?early]"]
      only [of "[?late, ?early]"] by auto
  have b: "frameToItem (/) 1 [?early, ?late] 1 = Some ?late"
    using overlap_greatest_offset_wins [OF pos _ _ ce cl lt, of "[?early, ?late]"]
      only [of "[?early, ?late]"] by auto
  from a b show ?thesis by (rule conjI)
qed

text \<open>
  Claim C4. Range computation: with \<open>frameDurationMs = 1000 / fps\<close>, a timeline of one entry
  maps exactly the keys from \<open>floor(offsetMs / frameDurationMs)\<close> up to, and excluding,
  \<open>ceil((offsetMs + durationMs) / frameDurationMs)\<close> to that entry; in any timeline an entry
  is found only at keys of its own range, and a key has an entry exactly when it lies in the
  range of some entry; and \<open>totalFrames\<close> is
  \<open>ceil((offsetMs + durationMs of the last entry) / frameDurationMs)\<close>. The quotients are
  those of the division of the code, \<open>fdiv\<close>, whatever it is.
  The keys of the map are the 0-based values of \<open>frameNumber\<close>: key \<open>0\<close> is frame \<open>1\<close>. For the
  entry with offset \<open>0\<close> and duration \<open>1000\<close> at one frame per second, given that the division
  returns the three quotients \<open>1000 / 1\<close>, \<open>0 / 1000\<close> and \<open>1000 / 1000\<close> exactly (they are whole
  numbers), there is one frame in all and the schedule has the key \<open>0\<close> only, mapped to the
  entry.
\<close>

theorem frame_range_computation:
  assumes "0 < fps"
  shows "frameToItem fdiv fps [e] k =
           (if \<lfloor>fdiv (offset e) (fdiv 1000 fps)\<rfloor> \<le> k \<and>
               k < \<lceil>fdiv (offset e + duration e) (fdiv 1000 fps)\<rceil>
            then Some e else None)
       \<and> (frameToItem fdiv fps timeline k = Some e \<longrightarrow>
            e \<in> set timeline \<and>
            \<lfloor>fdiv (offset e) (fdiv 1000 fps)\<rfloor> \<le> k \<and>
            k < \<lceil>fdiv (offset e + duration e) (fdiv 1000 fps)\<rceil>)
       \<and> (frameToItem fdiv fps timeline k \<noteq> None \<longleftrightarrow>
            (\<exists>c\<in>set timeline.
               \<lfloor>fdiv (offset c) (fdiv 1000 fps)\<rfloor> \<le> k \<and>
               k < \<lceil>fdiv (offset c + duration c) (fdiv 1000 fps)\<rceil>))
       \<and> (timeline \<noteq> [] \<longrightarrow>
            totalFrames fdiv fps timeline =
              Inr \<lceil>fdiv (offset (last timeline) + duration (last timeline)) (fdiv 1000 fps)\<rceil>)
       \<and> (fdiv 1000 1 = 1000 \<and> fdiv 0 1000 = 0 \<and> fdiv 1000 1000 = 1 \<longrightarrow>
            totalFrames fdiv 1
              [\<lparr>texts = [Some ''hello'', Some ''bonjour''], offset = 0, duration = 1000\<rparr>] = Inr 1 \<and>
            frameToItem fdiv 1
              [\<lparr>texts = [Some ''hello'', Some ''bonjour''], offset = 0, duration = 1000\<rparr>] k =
              (if k = 0
               then Some \<lparr>texts = [Some ''hello'', Some ''bonjour''], offset = 0, duration = 1000\<rparr>
               else None))"
proof -
  have one: "frameToItem fdiv fps [e] k =
           (if \<lfloor>fdiv (offset e) (fdiv 1000 fps)\<rfloor> \<le> k \<and>
               k < \<lceil>fdiv (offset e + duration e) (fdiv 1000 fps)\<rceil>
            then Some e else None)"
    by (simp add: frameToItem_single claims_iff)
  have own: "frameToItem fdiv fps timeline k = Some e \<longrightarrow>
            e \<in> set timeline \<and>
            \<lfloor>fdiv (offset e) (fdiv 1000 fps)\<rfloor> \<le> k \<and>
            k < \<lceil>fdiv (offset e + duration e) (fdiv 1000 fps)\<rceil>"
    using frameToItem_source [of fdiv fps timeline k e] by (simp add: claims_iff)
  have some: "frameToItem fdiv fps timeline k \<noteq> None \<longleftrightarrow>
            (\<exists>c\<in>set timeline.
               \<lfloor>fdiv (offset c) (fdiv 1000 fps)\<rfloor> \<le> k \<and>
               k < \<lceil>fdiv (offset c + duration c) (fdiv 1000 fps)\<rceil>)"
    by (simp only: frameToItem_defined claims_iff)
  have total: "timeline \<noteq> [] \<longrightarrow>
            totalFrames fdiv fps timeline =
              Inr \<lceil>fdiv (offset (last timeline) + duration (last timeline)) (fdiv 1000 fps)\<rceil>"
    by (cases timeline) (simp_all add: totalFrames_def totalDuration_def frameDuration_def)
  have scenario: "fdiv 1000 1 = 1000 \<and> fdiv 0 1000 = 0 \<and> fdiv 1000 1000 = 1 \<longrightarrow>
            totalFrames fdiv 1
              [\<lparr>texts = [Some ''hello'', Some ''bonjour''], offset = 0, duration = 1000\<rparr>] = Inr 1 \<and>
            frameToItem fdiv 1
              [\<lparr>texts = [Some ''hello'', Some ''bonjour''], offset = 0, duration = 1000\<rparr>] k =
              (if k = 0
               then Some \<lparr>texts = [Some ''hello'', Some ''bonjour''], offset = 0, duration = 1000\<rparr>
               else None)"
    by (auto simp: frameToItem_single claims_iff totalFrames_def totalDuration_def
        frameDuration_def)
  from one own some total scenario show ?thesis by (intro conjI)
qed

text \<open>
  Claim C10, as stated, fails for negative durations: at one frame per second the entry
  with offset \<open>1500\<close> and duration \<open>-100\<close> is assigned to the frame with key \<open>1\<close>. (The quotient
  of its start, \<open>1.5\<close>, is a double, and the quotient of its end, \<open>1.4\<close>, lies strictly between
  \<open>1\<close> and \<open>2\<close>, as does the double nearest to it.)
\<close>

theorem negative_duration_counterexample:
  "duration \<lparr>texts = [Some ''x''], offset = 1500, duration = - 100\<rparr> < 0
   \<and> frameToItem (/) 1 [\<lparr>texts = [Some ''x''], offset = 1500, duration = - 100\<rparr>] 1
       = Some \<lparr>texts = [Some ''x''], offset = 1500, duration = - 100\<rparr>"
  by (simp add: frameToItem_single claims_iff)

text \<open>
  Claim C10, amended. Let \<open>q\<close> be the quotient \<open>offsetMs / frameDurationMs\<close> as the code
  computes it. An entry of duration \<open>0\<close> is assigned to exactly one frame, \<open>floor(q)\<close>, when \<open>q\<close>
  is not a whole number, and to no frame when it is; where the division is exact, \<open>q\<close> is a
  whole number exactly when the offset is an integer multiple of \<open>frameDurationMs\<close>. An entry
  of negative duration is assigned to at most one frame: to \<open>floor(q)\<close> when the quotient of
  its end, \<open>(offsetMs + durationMs) / frameDurationMs\<close>, is strictly greater than \<open>floor(q)\<close>,
  and to no frame otherwise; this rests on the division being monotone in the dividend.
\<close>

theorem degenerate_duration_frames:
  assumes "0 < fps" and "0 < fdiv 1000 fps"
  shows "(duration e = 0 \<longrightarrow>
            dom (frameToItem fdiv fps [e]) =
              (if fdiv (offset e) (fdiv 1000 fps) \<in> \<int> then {}
               else {\<lfloor>fdiv (offset e) (fdiv 1000 fps)\<rfloor>}))
       \<and> (duration e = 0 \<and> fdiv (offset e) (fdiv 1000 fps) = offset e / fdiv 1000 fps \<longrightarrow>
            dom (frameToItem fdiv fps [e]) =
              (if \<exists>n::int. offset e = of_int n * fdiv 1000 fps then {}
               else {\<lfloor>offset e / fdiv 1000 fps\<rfloor>}))
       \<and> (duration e < 0 \<and> (\<forall>a b c. a \<le> b \<and> 0 < c \<longrightarrow> fdiv a c \<le> fdiv b c) \<longrightarrow>
            dom (frameToItem fdiv fps [e]) =
              (if of_int \<lfloor>fdiv (offset e) (fdiv 1000 fps)\<rfloor>
                    < fdiv (offset e + duration e) (fdiv 1000 fps)
               then {\<lfloor>fdiv (offset e) (fdiv 1000 fps)\<rfloor>} else {}))"
proof -
  define fd where "fd = fdiv 1000 fps"
  have fd: "0 < fd" using assms(2) by (simp add: fd_def)
  define x where "x = fdiv (offset e) fd"
  have cl: "claims fdiv fps e k \<longleftrightarrow> \<lfloor>x\<rfloor> \<le> k \<and> k < \<lceil>fdiv (offset e + duration e) fd\<rceil>" for k
    by (simp add: claims_iff fd_def x_def)
  have A: "dom (frameToItem fdiv fps [e]) = (if x \<in> \<int> then {} else {\<lfloor>x\<rfloor>})"
    if zero: "duration e = 0"
  proof (cases "x \<in> \<int>")
    case True
    then have "x = of_int \<lfloor>x\<rfloor>"
      by (auto elim: Ints_cases)
    then have "\<lceil>x\<rceil> = \<lfloor>x\<rfloor>"
      by (simp add: ceiling_altdef)
    with zero True show ?thesis
      by (auto simp: dom_frameToItem_single cl x_def)
  next
    case False
    have "x \<noteq> of_int \<lfloor>x\<rfloor>"
    proof
      assume "x = of_int \<lfloor>x\<rfloor>"
      then have "x \<in> \<int>" by (metis Ints_of_int)
      with False show False by simp
    qed
    then have "\<lceil>x\<rceil> = \<lfloor>x\<rfloor> + 1"
      by (simp add: ceiling_altdef)
    with zero False show ?thesis
      by (auto simp: dom_frameToItem_single cl x_def)
  qed
  have mult: "(\<exists>n::int. offset e = of_int n * fd) \<longleftrightarrow> x \<in> \<int>" if exact: "x = offset e / fd"
  proof
    assume "\<exists>n::int. offset e = of_int n * fd"
    then obtain n :: int where "offset e = of_int n * fd" by blast
    with fd exact have "x = of_int n" by simp
    then show "x \<in> \<int>" by simp
  next
    assume "x \<in> \<int>"
    then obtain n :: int where "x = of_int n" by (auto elim: Ints_cases)
    with fd exact have "offset e = of_int n * fd" by (simp add: field_simps)
    then show "\<exists>n::int. offset e = of_int n * fd" by blast
  qed
  have B: "dom (frameToItem fdiv fps [e]) =
      (if \<exists>n::int. offset e = of_int n * fd then {} else {\<lfloor>offset e / fd\<rfloor>})"
    if "duration e = 0" and exact: "x = offset e / fd"
    using A [OF that(1)] mult [OF exact] exact by simp
  have C: "dom (frameToItem fdiv fps [e]) =
      (if of_int \<lfloor>x\<rfloor> < fdiv (offset e + duration e) fd then {\<lfloor>x\<rfloor>} else {})"
    if neg: "duration e < 0" and mono: "\<forall>a b c. a \<le> b \<and> 0 < c \<longrightarrow> fdiv a c \<le> fdiv b c"
  proof -
    let ?y = "fdiv (offset e + duration e) fd"
    from neg have "offset e + duration e \<le> offset e" by simp
    with mono fd have "?y \<le> x" unfolding x_def by blast
    also have "x < of_int (\<lfloor>x\<rfloor> + 1)" by linarith
    finally have "\<lceil>?y\<rceil> \<le> \<lfloor>x\<rfloor> + 1" by (simp add: ceiling_le_iff)
    moreover have "\<lfloor>x\<rfloor> < \<lceil>?y\<rceil> \<longleftrightarrow> of_int \<lfloor>x\<rfloor> < ?y"
      by (simp add: less_ceiling_iff)
    ultimately show ?thesis
      by (auto simp: dom_frameToItem_single cl)
  qed
  from A B C show ?thesis
    unfolding fd_def x_def by blast
qed

text \<open>At one frame per second, with the division of the reals: the offsets \<open>1500\<close> and \<open>2000\<close>
  with duration \<open>0\<close>, and the offset \<open>1500\<close> with the durations \<open>-100\<close> and \<open>-600\<close>. (The
  quotients \<open>1.5\<close> and \<open>2\<close> are doubles; \<open>1.4\<close> and \<open>0.9\<close> are not, and the doubles nearest to them
  have their floors and ceilings.)\<close>

theorem degenerate_duration_frames_witness:
  "dom (frameToItem (/) 1 [\<lparr>texts = [Some ''x''], offset = 1500, duration = 0\<rparr>]) = {1}
   \<and> dom (frameToItem (/) 1 [\<lparr>texts = [Some ''x''], offset = 2000, duration = 0\<rparr>]) = {}
   \<and> dom (frameToItem (/) 1 [\<lparr>texts = [Some ''x''], offset = 1500, duration = - 100\<rparr>]) = {1}
   \<and> dom (frameToItem (/) 1 [\<lparr>texts = [Some ''x''], offset = 1500, duration = - 600\<rparr>]) = {}"
proof -
  have pos: "(0::real) < 1" and fdpos: "(0::real) < 1000 / 1" by simp_all
  have no: "(1500::real) / (1000 / 1) \<notin> \<int>"
  proof
    assume "(1500::real) / (1000 / 1) \<in> \<int>"
    then obtain n :: int where "(1500::real) / (1000 / 1) = of_int n" by (auto elim: Ints_cases)
    then have "real_of_int (2 * n) = real_of_int 3" by simp
    then have "2 * n = 3" by (simp only: of_int_eq_iff)
    then show False by presburger
  qed
  have yes: "(2000::real) / (1000 / 1) \<in> \<int>"
    by simp
  have mono: "\<forall>a b c::real. a \<le> b \<and> 0 < c \<longrightarrow> a / c \<le> b / c"
    by (simp add: divide_right_mono)
  note zero_a = degenerate_duration_frames [where fdiv = "(/)" and fps = 1 and e = "\<lparr>texts = [Some ''x''], offset = 1500, duration = 0\<rparr>", OF pos fdpos, THEN conjunct1]
  note zero_b = degenerate_duration_frames [where fdiv = "(/)" and fps = 1 and e = "\<lparr>texts = [Some ''x''], offset = 2000, duration = 0\<rparr>", OF pos fdpos, THEN conjunct1]
  note neg_c = degenerate_duration_frames [where fdiv = "(/)" and fps = 1 and e = "\<lparr>texts = [Some ''x''], offset = 1500, duration = - 100\<rparr>", OF pos fdpos, THEN conjunct2, THEN conjunct2]
  note neg_d = degenerate_duration_frames [where fdiv = "(/)" and fps = 1 and e = "\<lparr>texts = [Some ''x''], offset = 1500, duration = - 600\<rparr>", OF pos fdpos, THEN conjunct2, THEN conjunct2]
  from zero_a no
  have a: "dom (frameToItem (/) 1 [\<lparr>texts = [Some ''x''], offset = 1500, duration = 0\<rparr>]) = {1}"
    by simp
  from zero_b yes
  have b: "dom (frameToItem (/) 1 [\<lparr>texts = [Some ''x''], offset = 2000, duration = 0\<rparr>]) = {}"
    by simp
  from neg_c mono
  have c: "dom (frameToItem (/) 1 [\<lparr>texts = [Some ''x''], offset = 1500, duration = - 100\<rparr>]) = {1}"
    by simp
  from neg_d mono
  have d: "dom (frameToItem (/) 1 [\<lparr>texts = [Some ''x''], offset = 1500, duration = - 600\<rparr>]) = {}"
    by simp
  from a b c d show ?thesis by blast
qed

section \<open>Properties of the track aligner\<close>

text \<open>The merge in closed form: every base item keeps its timing, and receives its own
  first text followed by one text for each of the other transcripts, in their order.\<close>

lemma foldl_addLanguage:
  "foldl addLanguage merged others =
     map (\<lambda>b. b\<lparr>texts := texts b @
            map (\<lambda>cur. matchText (findMatch (offset b + duration b / 2) (items cur))) others\<rparr>)
       merged"
proof (induction others arbitrary: merged)
  case Nil
  show ?case by simp
next
  case (Cons cur rest)
  have "foldl addLanguage merged (cur # rest) = foldl addLanguage (addLanguage merged cur) rest"
    by simp
  also have "\<dots> =
     map (\<lambda>b. b\<lparr>texts := texts b @
            map (\<lambda>cur. matchText (findMatch (offset b + duration b / 2) (items cur))) rest\<rparr>)
       (addLanguage merged cur)"
    by (rule Cons.IH)
  also have "\<dots> =
     map (\<lambda>b. b\<lparr>texts := texts b @
            map (\<lambda>cur. matchText (findMatch (offset b + duration b / 2) (items cur))) (cur # rest)\<rparr>)
       merged"
    by (simp add: addLanguage_def addMatch_def Let_def comp_def)
  finally show ?case .
qed

lemma mergeTranscripts_Cons:
  "mergeTranscripts (base # others) =
     map (\<lambda>item. \<lparr>texts = firstText item #
                     map (\<lambda>cur. matchText (findMatch (offset item + duration item / 2) (items cur))) others,
                   offset = offset item, duration = duration item\<rparr>)
       (items base)"
  by (simp add: mergeTranscripts_def foldl_addLanguage baseItems_def comp_def)

text \<open>
  Claim C1. Midpoint matching: for the base cue at position \<open>j\<close>, with midpoint
  \<open>m = offsetMs + durationMs / 2\<close>, and for the secondary track at position \<open>i\<close> among the
  others, the text slot \<open>i + 1\<close> of the merged entry \<open>j\<close> is the text of the first cue of that
  track, in track order, with \<open>startMs \<le> m \<le> endMs\<close> (both ends inclusive), and the empty
  string when no cue of the track satisfies this. The text of a cue is the first element
  of its text array, which is all the array holds for a cue that the parser made.
\<close>

theorem midpoint_matching:
  assumes "j < length (items base)" and "i < length others"
  shows "texts (mergeTranscripts (base # others) ! j) ! Suc i =
     (case List.find
             (\<lambda>c. offset c \<le> offset (items base ! j) + duration (items base ! j) / 2 \<and>
                  offset (items base ! j) + duration (items base ! j) / 2 \<le> offset c + duration c)
             (items (others ! i)) of
        None \<Rightarrow> Some ''''
      | Some c \<Rightarrow> (case texts c of [] \<Rightarrow> Some '''' | t # _ \<Rightarrow> t))"
  using assms by (simp add: mergeTranscripts_Cons matchText_def findMatch_def)

text \<open>The base cue \<open>{0, 1000}\<close> with midpoint \<open>500\<close>: in the first secondary track the cue
  \<open>{1500, 2500}\<close> does not match, the cue \<open>{500, 1500}\<close> matches and comes before the cue
  \<open>{0, 1000}\<close>, which would match too; the second secondary track has the cue
  \<open>{1500, 2500}\<close> alone, and its slot is the empty string.\<close>

theorem midpoint_matching_witness:
  "texts (mergeTranscripts
     [\<lparr>lang = ''en'', items = [\<lparr>texts = [Some ''base''], offset = 0, duration = 1000\<rparr>]\<rparr>,
      \<lparr>lang = ''fr'', items = [\<lparr>texts = [Some ''avant''], offset = 1500, duration = 1000\<rparr>,
                              \<lparr>texts = [Some ''premier''], offset = 500, duration = 1000\<rparr>,
                              \<lparr>texts = [Some ''second''], offset = 0, duration = 1000\<rparr>]\<rparr>,
      \<lparr>lang = ''de'', items = [\<lparr>texts = [Some ''spaet''], offset = 1500, duration = 1000\<rparr>]\<rparr>] ! 0)
   = [Some ''base'', Some ''premier'', Some '''']"
proof -
  let ?base = "\<lparr>lang = ''en'', items = [\<lparr>texts = [Some ''base''], offset = 0, duration = 1000\<rparr>]\<rparr>"
  let ?fr = "\<lparr>lang = ''fr'', items = [\<lparr>texts = [Some ''avant''], offset = 1500, duration = 1000\<rparr>,
                              \<lparr>texts = [Some ''premier''], offset = 500, duration = 1000\<rparr>,
                              \<lparr>texts = [Some ''second''], offset = 0, duration = 1000\<rparr>]\<rparr>"
  let ?de = "\<lparr>lang = ''de'', items = [\<lparr>texts = [Some ''spaet''], offset = 1500, duration = 1000\<rparr>]\<rparr>"
  let ?e = "mergeTranscripts [?base, ?fr, ?de] ! 0"
  have len: "length (texts ?e) = 3"
    by (simp add: mergeTranscripts_Cons)
  have t0: "texts ?e ! 0 = Some ''base''"
    by (simp add: mergeTranscripts_Cons firstText_def)
  have t1: "texts ?e ! Suc 0 = Some ''premier''"
    using midpoint_matching [of 0 ?base 0 "[?fr, ?de]"] by simp
  have t2: "texts ?e ! Suc (Suc 0) = Some ''''"
    using midpoint_matching [of 0 ?base "Suc 0" "[?fr, ?de]"] by simp
  show ?thesis
  proof (rule nth_equalityI)
    show "length (texts ?e) = length [Some ''base'', Some ''premier'', Some '''']"
      using len by simp
  next
    fix n assume "n < length (texts ?e)"
    with len have "n = 0 \<or> n = Suc 0 \<or> n = Suc (Suc 0)" by auto
    with t0 t1 t2 show "texts ?e ! n = [Some ''base'', Some ''premier'', Some ''''] ! n"
      by auto
  qed
qed

text \<open>
  Claim C3. Timeline invariants: for a non-empty list of tracks, the timeline has as many
  entries as the base track has cues; the entries are in the order of the base cues, each
  with the offset, the duration and, in slot \<open>0\<close>, the first text of its base cue; and the
  text list of every entry has one slot for each track merged.
\<close>

theorem timeline_invariants:
  "length (mergeTranscripts (base # others)) = length (items base)
   \<and> map offset (mergeTranscripts (base # others)) = map offset (items base)
   \<and> map duration (mergeTranscripts (base # others)) = map duration (items base)
   \<and> map (\<lambda>e. texts e ! 0) (mergeTranscripts (base # others)) = map firstText (items base)
   \<and> (\<forall>e\<in>set (mergeTranscripts (base # others)). length (texts e) = length (base # others))"
  by (simp add: mergeTranscripts_Cons comp_def)

text \<open>A base track of two cues merged with one secondary track.\<close>

theorem timeline_invariants_witness:
  "mergeTranscripts
     [\<lparr>lang = ''en'', items = [\<lparr>texts = [Some ''hello''], offset = 0, duration = 1000\<rparr>,
                              \<lparr>texts = [Some ''world''], offset = 1000, duration = 500\<rparr>]\<rparr>,
      \<lparr>lang = ''fr'', items = [\<lparr>texts = [Some ''bonjour''], offset = 0, duration = 1000\<rparr>]\<rparr>]
   = [\<lparr>texts = [Some ''hello'', Some ''bonjour''], offset = 0, duration = 1000\<rparr>,
      \<lparr>texts = [Some ''world'', Some ''''], offset = 1000, duration = 500\<rparr>]
   \<and> map (\<lambda>e. length (texts e)) (mergeTranscripts
     [\<lparr>lang = ''en'', items = [\<lparr>texts = [Some ''hello''], offset = 0, duration = 1000\<rparr>,
                              \<lparr>texts = [Some ''world''], offset = 1000, duration = 500\<rparr>]\<rparr>,
      \<lparr>lang = ''fr'', items = [\<lparr>texts = [Some ''bonjour''], offset = 0, duration = 1000\<rparr>]\<rparr>])
     = [2, 2]"
  using timeline_invariants [of "\<lparr>lang = ''en'', items = [\<lparr>texts = [Some ''hello''], offset = 0, duration = 1000\<rparr>,
                              \<lparr>texts = [Some ''world''], offset = 1000, duration = 500\<rparr>]\<rparr>"
      "[\<lparr>lang = ''fr'', items = [\<lparr>texts = [Some ''bonjour''], offset = 0, duration = 1000\<rparr>]\<rparr>]"]
  by (simp add: mergeTranscripts_def baseItems_def firstText_def addLanguage_def addMatch_def
      findMatch_def matchText_def)

section \<open>Properties of the frame pipeline driver\<close>

text \<open>The three outcomes of one pass of the loop body: the frame is skipped, it is rendered
  and written, or the write is rejected.\<close>

lemma generateFrame_skip:
  "existsSync w (framePath join framesDir n) \<Longrightarrow>
     generateFrame fdiv join config schedule framesDir cb totalF n w =
       Inr (notify cb (n + 1, totalF, framePath join framesDir n) w)"
  by (simp add: generateFrame_def Let_def)

lemma generateFrame_render:
  "\<not> existsSync w (framePath join framesDir n) \<Longrightarrow>
   \<not> writeRejected w (framePath join framesDir n) \<Longrightarrow>
     generateFrame fdiv join config schedule framesDir cb totalF n w =
       Inr (notify cb (n + 1, totalF, framePath join framesDir n)
             (w\<lparr>renderCalls := renderCalls w @ [(n, textLinesAt schedule n)],
                files := (files w)(framePath join framesDir n \<mapsto>
                           renderFrame fdiv config (textLinesAt schedule n))\<rparr>))"
  by (simp add: generateFrame_def Let_def writeFile_def)

lemma generateFrame_rejected:
  "\<not> existsSync w (framePath join framesDir n) \<Longrightarrow>
   writeRejected w (framePath join framesDir n) \<Longrightarrow>
     generateFrame fdiv join config schedule framesDir cb totalF n w = Inl WriteError"
  by (simp add: generateFrame_def Let_def writeFile_def)

lemma generateFrame_cases:
  assumes "generateFrame fdiv join config schedule framesDir cb totalF n w = Inr w'"
  obtains (skipped) "existsSync w (framePath join framesDir n)"
      "w' = notify cb (n + 1, totalF, framePath join framesDir n) w"
    | (rendered) "\<not> existsSync w (framePath join framesDir n)"
      "w' = notify cb (n + 1, totalF, framePath join framesDir n)
             (w\<lparr>renderCalls := renderCalls w @ [(n, textLinesAt schedule n)],
                files := (files w)(framePath join framesDir n \<mapsto>
                           renderFrame fdiv config (textLinesAt schedule n))\<rparr>)"
proof (cases "existsSync w (framePath join framesDir n)")
  case True
  with assms skipped show ?thesis by (simp add: generateFrame_skip)
next
  case False
  show ?thesis
  proof (cases "writeRejected w (framePath join framesDir n)")
    case True
    with False assms show ?thesis by (simp add: generateFrame_rejected)
  next
    case wr: False
    with False assms rendered show ?thesis by (simp add: generateFrame_render)
  qed
qed

text \<open>The progress events of the frames \<open>n + 1\<close> to \<open>totalF\<close>.\<close>

lemma upto_step: "n < totalF \<Longrightarrow> [n + 1..totalF] = (n + 1) # [n + 1 + 1..totalF]"
  using upto_rec1 [of "n + 1" totalF] by simp

lemma frameLoop_done: "\<not> n < totalF \<Longrightarrow>
    frameLoop fdiv join config schedule framesDir cb totalF n w = Inr w"
  by (simp add: frameLoop.simps [of fdiv join config schedule framesDir cb totalF n w])

lemma frameLoop_step: "n < totalF \<Longrightarrow>
    frameLoop fdiv join config schedule framesDir cb totalF n w =
      (case generateFrame fdiv join config schedule framesDir cb totalF n w of
         Inl e \<Rightarrow> Inl e
       | Inr w' \<Rightarrow> frameLoop fdiv join config schedule framesDir cb totalF (n + 1) w')"
  by (simp add: frameLoop.simps [of fdiv join config schedule framesDir cb totalF n w])

lemma frameLoop_progress:
  "frameLoop fdiv join config schedule framesDir cb totalF n w = Inr w' \<Longrightarrow>
     progress w' = progress w @
       (if cb then map (\<lambda>i. (i, totalF, framePath join framesDir (i - 1))) [n + 1..totalF] else [])"
proof (induction fdiv join config schedule framesDir cb totalF n w rule: frameLoop.induct)
  case (1 fdiv join config schedule framesDir cb totalF n w)
  show ?case
  proof (cases "n < totalF")
    case False
    with "1.prems" show ?thesis by (simp add: frameLoop_done)
  next
    case True
    with "1.prems" obtain w1 where
      g: "generateFrame fdiv join config schedule framesDir cb totalF n w = Inr w1" and
      l: "frameLoop fdiv join config schedule framesDir cb totalF (n + 1) w1 = Inr w'"
      by (auto simp: frameLoop_step split: sum.splits)
    from "1.IH" [OF True g l]
    have ih: "progress w' = progress w1 @
       (if cb then map (\<lambda>i. (i, totalF, framePath join framesDir (i - 1))) [n + 1 + 1..totalF] else [])" .
    from g have "progress w1 = progress w @ (if cb then [(n + 1, totalF, framePath join framesDir n)] else [])"
      by (rule generateFrame_cases) (simp_all add: notify_def)
    with ih True show ?thesis
      by (simp add: upto_step)
  qed
qed

lemma frameLoop_files:
  "frameLoop fdiv join config schedule framesDir cb totalF n w = Inr w' \<Longrightarrow>
     writeRejected w' = writeRejected w
     \<and> (\<forall>p. files w p \<noteq> None \<longrightarrow> files w' p = files w p)
     \<and> (\<forall>k. n \<le> k \<and> k < totalF \<longrightarrow> files w' (framePath join framesDir k) \<noteq> None)
     \<and> (\<exists>new. renderCalls w' = renderCalls w @ new \<and>
           (\<forall>(k, ls)\<in>set new. n \<le> k \<and> k < totalF \<and> ls = textLinesAt schedule k \<and>
                                 files w (framePath join framesDir k) = None))"
proof (induction fdiv join config schedule framesDir cb totalF n w rule: frameLoop.induct)
  case (1 fdiv join config schedule framesDir cb totalF n w)
  show ?case
  proof (cases "n < totalF")
    case False
    with "1.prems" have "w' = w" by (simp add: frameLoop_done)
    moreover have "\<exists>new. renderCalls w = renderCalls w @ new \<and>
           (\<forall>(k, ls)\<in>set new. n \<le> k \<and> k < totalF \<and> ls = textLinesAt schedule k \<and>
                                 files w (framePath join framesDir k) = None)"
      by (rule exI [of _ "[]"]) simp
    ultimately show ?thesis using False by auto
  next
    case True
    with "1.prems" obtain w1 where
      g: "generateFrame fdiv join config schedule framesDir cb totalF n w = Inr w1" and
      l: "frameLoop fdiv join config schedule framesDir cb totalF (n + 1) w1 = Inr w'"
      by (auto simp: frameLoop_step split: sum.splits)
    from "1.IH" [OF True g l]
    have ih: "writeRejected w' = writeRejected w1
     \<and> (\<forall>p. files w1 p \<noteq> None \<longrightarrow> files w' p = files w1 p)
     \<and> (\<forall>k. n + 1 \<le> k \<and> k < totalF \<longrightarrow> files w' (framePath join framesDir k) \<noteq> None)
     \<and> (\<exists>new. renderCalls w' = renderCalls w1 @ new \<and>
           (\<forall>(k, ls)\<in>set new. n + 1 \<le> k \<and> k < totalF \<and> ls = textLinesAt schedule k \<and>
                                 files w1 (framePath join framesDir k) = None))" .
    from ih have ih1: "writeRejected w' = writeRejected w1"
      by blast
    from ih have ih2: "files w1 p \<noteq> None \<Longrightarrow> files w' p = files w1 p" for p
      by blast
    from ih have ih3: "n + 1 \<le> k \<Longrightarrow> k < totalF \<Longrightarrow> files w' (framePath join framesDir k) \<noteq> None" for k
      by blast
    from ih obtain new where
      ih4: "renderCalls w' = renderCalls w1 @ new" and
      ih5': "\<forall>(k, ls)\<in>set new. n + 1 \<le> k \<and> k < totalF \<and> ls = textLinesAt schedule k \<and>
                                 files w1 (framePath join framesDir k) = None"
      by blast
    from ih5' have ih5: "(k, ls) \<in> set new \<Longrightarrow> n + 1 \<le> k \<and> k < totalF \<and> ls = textLinesAt schedule k \<and>
                                 files w1 (framePath join framesDir k) = None" for k ls
      by blast
    from g have s1: "writeRejected w1 = writeRejected w"
      by (rule generateFrame_cases) (simp_all add: notify_def)
    from g have s2: "files w p \<noteq> None \<Longrightarrow> files w1 p = files w p" for p
      by (rule generateFrame_cases) (auto simp: notify_def existsSync_def)
    from g have s2': "files w1 p = None \<Longrightarrow> files w p = None" for p
      by (rule generateFrame_cases) (auto simp: notify_def existsSync_def split: if_splits)
    from g have s3: "files w1 (framePath join framesDir n) \<noteq> None"
      by (rule generateFrame_cases) (auto simp: notify_def existsSync_def)
    from g have s4: "\<exists>step. renderCalls w1 = renderCalls w @ step \<and>
        (\<forall>(k, ls)\<in>set step. k = n \<and> ls = textLinesAt schedule n \<and>
           files w (framePath join framesDir n) = None)"
      by (rule generateFrame_cases) (auto simp: notify_def existsSync_def)
    then obtain step where
      st1: "renderCalls w1 = renderCalls w @ step" and
      st2: "\<And>k ls. (k, ls) \<in> set step \<Longrightarrow> k = n \<and> ls = textLinesAt schedule n \<and>
           files w (framePath join framesDir n) = None"
      by blast
    have a: "writeRejected w' = writeRejected w"
      using ih1 s1 by simp
    have b: "\<forall>p. files w p \<noteq> None \<longrightarrow> files w' p = files w p"
      using ih2 s2 by metis
    have c: "\<forall>k. n \<le> k \<and> k < totalF \<longrightarrow> files w' (framePath join framesDir k) \<noteq> None"
    proof (intro allI impI)
      fix k assume k: "n \<le> k \<and> k < totalF"
      show "files w' (framePath join framesDir k) \<noteq> None"
      proof (cases "k = n")
        case True
        with s3 ih2 [of "framePath join framesDir n"] show ?thesis by simp
      next
        case False
        with k ih3 [of k] show ?thesis by simp
      qed
    qed
    have d: "renderCalls w' = renderCalls w @ (step @ new)"
      using ih4 st1 by simp
    have e: "\<forall>(k, ls)\<in>set (step @ new). n \<le> k \<and> k < totalF \<and> ls = textLinesAt schedule k \<and>
                                 files w (framePath join framesDir k) = None"
      using st2 ih5 s2' True by fastforce
    from a b c d e show ?thesis by blast
  qed
qed

lemma frameLoop_all_exist:
  "\<forall>k. n \<le> k \<and> k < totalF \<longrightarrow> files w (framePath join framesDir k) \<noteq> None \<Longrightarrow>
     frameLoop fdiv join config schedule framesDir cb totalF n w =
       Inr (w\<lparr>progress := progress w @
              (if cb then map (\<lambda>i. (i, totalF, framePath join framesDir (i - 1))) [n + 1..totalF]
               else [])\<rparr>)"
proof (induction fdiv join config schedule framesDir cb totalF n w rule: frameLoop.induct)
  case (1 fdiv join config schedule framesDir cb totalF n w)
  show ?case
  proof (cases "n < totalF")
    case False
    then show ?thesis by (simp add: frameLoop_done)
  next
    case True
    let ?w1 = "notify cb (n + 1, totalF, framePath join framesDir n) w"
    from True "1.prems" have ex: "existsSync w (framePath join framesDir n)"
      by (simp add: existsSync_def)
    then have g: "generateFrame fdiv join config schedule framesDir cb totalF n w = Inr ?w1"
      by (rule generateFrame_skip)
    have "\<forall>k. n + 1 \<le> k \<and> k < totalF \<longrightarrow> files ?w1 (framePath join framesDir k) \<noteq> None"
      using "1.prems" by (simp add: notify_def)
    from "1.IH" [OF True g this]
    have "frameLoop fdiv join config schedule framesDir cb totalF (n + 1) ?w1 =
        Inr (?w1\<lparr>progress := progress ?w1 @
              (if cb then map (\<lambda>i. (i, totalF, framePath join framesDir (i - 1))) [n + 1 + 1..totalF]
               else [])\<rparr>)" .
    moreover have "frameLoop fdiv join config schedule framesDir cb totalF n w =
        frameLoop fdiv join config schedule framesDir cb totalF (n + 1) ?w1"
      using True g by (simp add: frameLoop_step)
    ultimately show ?thesis
      using True by (cases cb) (simp_all add: upto_step notify_def)
  qed
qed

lemma generateFrames_Inr:
  assumes "generateFrames fdiv join config timeline framesDir fps cb w = Inr ((totalF, d), w1)"
  shows "totalFrames fdiv fps timeline = Inr totalF"
    and "totalDuration timeline = Inr d"
    and "frameLoop fdiv join config (frameToItem fdiv fps timeline) framesDir cb totalF 0 w = Inr w1"
  using assms by (auto simp: generateFrames_def split: sum.splits)

lemma renderFrame_no_lines:
  "renderFrame fdiv config [] = \<lparr>background = backgroundColor config, drawn = []\<rparr>"
  by (simp add: renderFrame_def)

lemma generateFrame_no_TypeError:
  "generateFrame fdiv join config schedule framesDir cb totalF n w \<noteq> Inl TypeError"
  by (simp add: generateFrame_def Let_def writeFile_def)

text \<open>Runs on concrete inputs, at one frame per second. The division given is that of the
  reals: every quotient of these runs is a whole number, which the division of the code
  returns exactly.\<close>

lemma framePath_examples:
  "framePath simpleJoin ''frames'' 0 = ''frames/frame_00000001.png''"
  "framePath simpleJoin ''frames'' 1 = ''frames/frame_00000002.png''"
  "framePath simpleJoin ''frames'' 2 = ''frames/frame_00000003.png''"
  by code_simp+

lemma run1:
  "generateFrames (/) simpleJoin demoConfig
     [\<lparr>texts = [Some ''hello'', Some ''bonjour''], offset = 1000, duration = 1000\<rparr>]
     ''frames'' 1 True emptyWorld
   = Inr ((2, 2000),
       \<lparr>files = [''frames/frame_00000001.png'' \<mapsto> renderFrame (/) demoConfig [],
                 ''frames/frame_00000002.png'' \<mapsto> renderFrame (/) demoConfig [Some ''hello'', Some ''bonjour'']],
        writeRejected = (\<lambda>path. False),
        progress = [(1, 2, ''frames/frame_00000001.png''), (2, 2, ''frames/frame_00000002.png'')],
        renderCalls = [(0, []), (1, [Some ''hello'', Some ''bonjour''])]\<rparr>)"
  by (simp add: generateFrames_def totalDuration_def totalFrames_def frameDuration_def
      frameLoop_step frameLoop_done generateFrame_def framePath_examples
      emptyWorld_def existsSync_def writeFile_def notify_def
      textLinesAt_def frameToItem_single claims_iff Let_def)

text \<open>The scenario of one entry with offset \<open>0\<close> and duration \<open>1000\<close> at one frame per second:
  one frame in all, key \<open>0\<close>, mapped to the entry; the driver renders it as frame \<open>1\<close>, with
  the texts of the entry, and reports frame \<open>1\<close> of \<open>1\<close>.\<close>

theorem frame_range_computation_witness:
  "(0::real) < 1
   \<and> frameToItem (/) 1 [\<lparr>texts = [Some ''hello'', Some ''bonjour''], offset = 0, duration = 1000\<rparr>] 0
       = Some \<lparr>texts = [Some ''hello'', Some ''bonjour''], offset = 0, duration = 1000\<rparr>
   \<and> frameToItem (/) 1 [\<lparr>texts = [Some ''hello'', Some ''bonjour''], offset = 0, duration = 1000\<rparr>] 1 = None
   \<and> frameToItem (/) 1 [\<lparr>texts = [Some ''hello'', Some ''bonjour''], offset = 0, duration = 1000\<rparr>] (- 1) = None
   \<and> totalFrames (/) 1 [\<lparr>texts = [Some ''hello'', Some ''bonjour''], offset = 0, duration = 1000\<rparr>] = Inr 1
   \<and> generateFrames (/) simpleJoin demoConfig
         [\<lparr>texts = [Some ''hello'', Some ''bonjour''], offset = 0, duration = 1000\<rparr>]
         ''frames'' 1 True emptyWorld
       = Inr ((1, 1000),
           \<lparr>files = [''frames/frame_00000001.png'' \<mapsto>
                       renderFrame (/) demoConfig [Some ''hello'', Some ''bonjour'']],
            writeRejected = (\<lambda>path. False),
            progress = [(1, 1, ''frames/frame_00000001.png'')],
            renderCalls = [(0, [Some ''hello'', Some ''bonjour''])]\<rparr>)"
proof -
  let ?e = "\<lparr>texts = [Some ''hello'', Some ''bonjour''], offset = 0, duration = 1000\<rparr>"
  have pos: "(0::real) < 1" by simp
  note at0 = frame_range_computation [where fdiv = "(/)" and e = ?e and k = 0 and
      timeline = "[?e]", OF pos]
  note at1 = frame_range_computation [where fdiv = "(/)" and e = ?e and k = 1 and
      timeline = "[?e]", OF pos]
  note before = frame_range_computation [where fdiv = "(/)" and e = ?e and k = "- 1" and
      timeline = "[?e]", OF pos]
  from at0 have k0: "frameToItem (/) 1 [?e] 0 = Some ?e" by simp
  from at1 have k1: "frameToItem (/) 1 [?e] 1 = None" by simp
  from before have km: "frameToItem (/) 1 [?e] (- 1) = None" by simp
  from at0 have tf: "totalFrames (/) 1 [?e] = Inr 1" by simp
  have run: "generateFrames (/) simpleJoin demoConfig [?e] ''frames'' 1 True emptyWorld
       = Inr ((1, 1000),
           \<lparr>files = [''frames/frame_00000001.png'' \<mapsto>
                       renderFrame (/) demoConfig [Some ''hello'', Some ''bonjour'']],
            writeRejected = (\<lambda>path. False),
            progress = [(1, 1, ''frames/frame_00000001.png'')],
            renderCalls = [(0, [Some ''hello'', Some ''bonjour''])]\<rparr>)"
    by (simp add: generateFrames_def totalDuration_def tf k0
        frameLoop_step frameLoop_done generateFrame_def framePath_examples
        emptyWorld_def existsSync_def writeFile_def notify_def textLinesAt_def Let_def)
  from pos k0 k1 km tf run show ?thesis by (simp only: simp_thms)
qed

lemma frameToItem_gap_example:
  "frameToItem (/) 1 [\<lparr>texts = [Some ''hello'', Some ''bonjour''], offset = 0, duration = 1000\<rparr>,
                  \<lparr>texts = [Some ''bye'', Some ''salut''], offset = 2000, duration = 1000\<rparr>] 0
     = Some \<lparr>texts = [Some ''hello'', Some ''bonjour''], offset = 0, duration = 1000\<rparr>"
  "frameToItem (/) 1 [\<lparr>texts = [Some ''hello'', Some ''bonjour''], offset = 0, duration = 1000\<rparr>,
                  \<lparr>texts = [Some ''bye'', Some ''salut''], offset = 2000, duration = 1000\<rparr>] 1
     = None"
  "frameToItem (/) 1 [\<lparr>texts = [Some ''hello'', Some ''bonjour''], offset = 0, duration = 1000\<rparr>,
                  \<lparr>texts = [Some ''bye'', Some ''salut''], offset = 2000, duration = 1000\<rparr>] 2
     = Some \<lparr>texts = [Some ''bye'', Some ''salut''], offset = 2000, duration = 1000\<rparr>"
  by (simp_all add: frameToItem_def assignFrames_apply claimFrame_same startFrame_def endFrame_def
      frameDuration_def)

lemma resumed_run_example:
  "generateFrames (/) simpleJoin demoConfig
     [\<lparr>texts = [Some ''hello'', Some ''bonjour''], offset = 0, duration = 1000\<rparr>,
      \<lparr>texts = [Some ''bye'', Some ''salut''], offset = 2000, duration = 1000\<rparr>]
     ''frames'' 1 True
     \<lparr>files = [''frames/frame_00000002.png'' \<mapsto> renderFrame (/) demoConfig []],
      writeRejected = (\<lambda>path. False), progress = [], renderCalls = []\<rparr>
   = Inr ((3, 3000),
       \<lparr>files = [''frames/frame_00000002.png'' \<mapsto> renderFrame (/) demoConfig [],
                 ''frames/frame_00000001.png'' \<mapsto> renderFrame (/) demoConfig [Some ''hello'', Some ''bonjour''],
                 ''frames/frame_00000003.png'' \<mapsto> renderFrame (/) demoConfig [Some ''bye'', Some ''salut'']],
        writeRejected = (\<lambda>path. False),
        progress = [(1, 3, ''frames/frame_00000001.png''), (2, 3, ''frames/frame_00000002.png''),
                    (3, 3, ''frames/frame_00000003.png'')],
        renderCalls = [(0, [Some ''hello'', Some ''bonjour'']), (2, [Some ''bye'', Some ''salut''])]\<rparr>)"
  by (simp add: generateFrames_def totalDuration_def totalFrames_def frameDuration_def
      frameLoop_step frameLoop_done generateFrame_def framePath_examples
      existsSync_def writeFile_def notify_def
      textLinesAt_def frameToItem_gap_example Let_def)

text \<open>
  Claim C5. Resume idempotence. For a run of the driver that ends without an error, with a
  progress callback: the progress events of the run are exactly one event for each frame
  index from \<open>1\<close> to \<open>totalFrames\<close>, in increasing order, whether the frame was rendered or
  skipped; no file that existed before the run is changed, and every call of the renderer
  in the run is for a frame whose file did not exist before the run; a pass of the loop
  body for a frame whose file exists emits the event and does nothing else; and a second
  run, started in the world the first one left, ends without an error, calls the renderer
  not once, writes nothing, and emits the same sequence of events again.
\<close>

theorem resume_idempotence:
  assumes "generateFrames fdiv join config timeline framesDir fps True w = Inr ((totalF, d), w1)"
  shows "progress w1 =
           progress w @ map (\<lambda>i. (i, totalF, framePath join framesDir (i - 1))) [1..totalF]
       \<and> (\<forall>p. files w p \<noteq> None \<longrightarrow> files w1 p = files w p)
       \<and> (\<exists>new. renderCalls w1 = renderCalls w @ new \<and>
             (\<forall>(k, ls)\<in>set new. files w (framePath join framesDir k) = None))
       \<and> (\<forall>n v. existsSync v (framePath join framesDir n) \<longrightarrow>
             generateFrame fdiv join config (frameToItem fdiv fps timeline) framesDir True totalF n v =
               Inr (v\<lparr>progress := progress v @ [(n + 1, totalF, framePath join framesDir n)]\<rparr>))
       \<and> generateFrames fdiv join config timeline framesDir fps True w1 =
           Inr ((totalF, d),
                w1\<lparr>progress := progress w1 @
                      map (\<lambda>i. (i, totalF, framePath join framesDir (i - 1))) [1..totalF]\<rparr>)"
proof -
  note run = generateFrames_Inr [OF assms]
  have events: "progress w1 =
           progress w @ map (\<lambda>i. (i, totalF, framePath join framesDir (i - 1))) [1..totalF]"
    using frameLoop_progress [OF run(3)] by simp
  note fl = frameLoop_files [OF run(3)]
  have kept: "\<forall>p. files w p \<noteq> None \<longrightarrow> files w1 p = files w p"
    using fl by blast
  have calls: "\<exists>new. renderCalls w1 = renderCalls w @ new \<and>
             (\<forall>(k, ls)\<in>set new. files w (framePath join framesDir k) = None)"
  proof -
    from fl obtain new where "renderCalls w1 = renderCalls w @ new"
      and "\<forall>(k, ls)\<in>set new. 0 \<le> k \<and> k < totalF \<and> ls = textLinesAt (frameToItem fdiv fps timeline) k \<and>
                                 files w (framePath join framesDir k) = None"
      by blast
    then show ?thesis by (intro exI [of _ new]) auto
  qed
  have skip: "\<forall>n v. existsSync v (framePath join framesDir n) \<longrightarrow>
             generateFrame fdiv join config (frameToItem fdiv fps timeline) framesDir True totalF n v =
               Inr (v\<lparr>progress := progress v @ [(n + 1, totalF, framePath join framesDir n)]\<rparr>)"
    by (simp add: generateFrame_skip notify_def)
  have "\<forall>k. 0 \<le> k \<and> k < totalF \<longrightarrow> files w1 (framePath join framesDir k) \<noteq> None"
    using fl by blast
  from frameLoop_all_exist [where fdiv = fdiv and config = config and
      schedule = "frameToItem fdiv fps timeline" and cb = True, OF this]
  have again: "generateFrames fdiv join config timeline framesDir fps True w1 =
           Inr ((totalF, d),
                w1\<lparr>progress := progress w1 @
                      map (\<lambda>i. (i, totalF, framePath join framesDir (i - 1))) [1..totalF]\<rparr>)"
    using run(1,2) by (simp add: generateFrames_def)
  from events kept calls skip again show ?thesis by blast
qed

text \<open>A run over three frames in a directory that holds the second frame already: the
  first and the third frame are rendered, and the second run renders nothing.\<close>

theorem resume_idempotence_witness:
  "generateFrames (/) simpleJoin demoConfig
     [\<lparr>texts = [Some ''hello'', Some ''bonjour''], offset = 0, duration = 1000\<rparr>,
      \<lparr>texts = [Some ''bye'', Some ''salut''], offset = 2000, duration = 1000\<rparr>]
     ''frames'' 1 True
     \<lparr>files = [''frames/frame_00000002.png'' \<mapsto> renderFrame (/) demoConfig []],
      writeRejected = (\<lambda>path. False), progress = [], renderCalls = []\<rparr>
   = Inr ((3, 3000),
       \<lparr>files = [''frames/frame_00000002.png'' \<mapsto> renderFrame (/) demoConfig [],
                 ''frames/frame_00000001.png'' \<mapsto> renderFrame (/) demoConfig [Some ''hello'', Some ''bonjour''],
                 ''frames/frame_00000003.png'' \<mapsto> renderFrame (/) demoConfig [Some ''bye'', Some ''salut'']],
        writeRejected = (\<lambda>path. False),
        progress = [(1, 3, ''frames/frame_00000001.png''), (2, 3, ''frames/frame_00000002.png''),
                    (3, 3, ''frames/frame_00000003.png'')],
        renderCalls = [(0, [Some ''hello'', Some ''bonjour'']), (2, [Some ''bye'', Some ''salut''])]\<rparr>)
   \<and> generateFrames (/) simpleJoin demoConfig
     [\<lparr>texts = [Some ''hello'', Some ''bonjour''], offset = 0, duration = 1000\<rparr>,
      \<lparr>texts = [Some ''bye'', Some ''salut''], offset = 2000, duration = 1000\<rparr>]
     ''frames'' 1 True
     \<lparr>files = [''frames/frame_00000002.png'' \<mapsto> renderFrame (/) demoConfig [],
                 ''frames/frame_00000001.png'' \<mapsto> renderFrame (/) demoConfig [Some ''hello'', Some ''bonjour''],
                 ''frames/frame_00000003.png'' \<mapsto> renderFrame (/) demoConfig [Some ''bye'', Some ''salut'']],
        writeRejected = (\<lambda>path. False),
        progress = [(1, 3, ''frames/frame_00000001.png''), (2, 3, ''frames/frame_00000002.png''),
                    (3, 3, ''frames/frame_00000003.png'')],
        renderCalls = [(0, [Some ''hello'', Some ''bonjour'']), (2, [Some ''bye'', Some ''salut''])]\<rparr>
   = Inr ((3, 3000),
       \<lparr>files = [''frames/frame_00000002.png'' \<mapsto> renderFrame (/) demoConfig [],
                 ''frames/frame_00000001.png'' \<mapsto> renderFrame (/) demoConfig [Some ''hello'', Some ''bonjour''],
                 ''frames/frame_00000003.png'' \<mapsto> renderFrame (/) demoConfig [Some ''bye'', Some ''salut'']],
        writeRejected = (\<lambda>path. False),
        progress = [(1, 3, ''frames/frame_00000001.png''), (2, 3, ''frames/frame_00000002.png''),
                    (3, 3, ''frames/frame_00000003.png''),
                    (1, 3, ''frames/frame_00000001.png''), (2, 3, ''frames/frame_00000002.png''),
                    (3, 3, ''frames/frame_00000003.png'')],
        renderCalls = [(0, [Some ''hello'', Some ''bonjour'']), (2, [Some ''bye'', Some ''salut''])]\<rparr>)"
proof -
  have upto3: "[1..3::int] = [1, 2, 3]" by code_simp
  note again = resume_idempotence [OF resumed_run_example, THEN conjunct2, THEN conjunct2,
      THEN conjunct2, THEN conjunct2]
  from again have "generateFrames (/) simpleJoin demoConfig
     [\<lparr>texts = [Some ''hello'', Some ''bonjour''], offset = 0, duration = 1000\<rparr>,
      \<lparr>texts = [Some ''bye'', Some ''salut''], offset = 2000, duration = 1000\<rparr>]
     ''frames'' 1 True
     \<lparr>files = [''frames/frame_00000002.png'' \<mapsto> renderFrame (/) demoConfig [],
                 ''frames/frame_00000001.png'' \<mapsto> renderFrame (/) demoConfig [Some ''hello'', Some ''bonjour''],
                 ''frames/frame_00000003.png'' \<mapsto> renderFrame (/) demoConfig [Some ''bye'', Some ''salut'']],
        writeRejected = (\<lambda>path. False),
        progress = [(1, 3, ''frames/frame_00000001.png''), (2, 3, ''frames/frame_00000002.png''),
                    (3, 3, ''frames/frame_00000003.png'')],
        renderCalls = [(0, [Some ''hello'', Some ''bonjour'']), (2, [Some ''bye'', Some ''salut''])]\<rparr>
   = Inr ((3, 3000),
       \<lparr>files = [''frames/frame_00000002.png'' \<mapsto> renderFrame (/) demoConfig [],
                 ''frames/frame_00000001.png'' \<mapsto> renderFrame (/) demoConfig [Some ''hello'', Some ''bonjour''],
                 ''frames/frame_00000003.png'' \<mapsto> renderFrame (/) demoConfig [Some ''bye'', Some ''salut'']],
        writeRejected = (\<lambda>path. False),
        progress = [(1, 3, ''frames/frame_00000001.png''), (2, 3, ''frames/frame_00000002.png''),
                    (3, 3, ''frames/frame_00000003.png''),
                    (1, 3, ''frames/frame_00000001.png''), (2, 3, ''frames/frame_00000002.png''),
                    (3, 3, ''frames/frame_00000003.png'')],
        renderCalls = [(0, [Some ''hello'', Some ''bonjour'']), (2, [Some ''bye'', Some ''salut''])]\<rparr>)"
    by (simp add: upto3 framePath_examples)
  with resumed_run_example show ?thesis by (rule conjI)
qed

text \<open>
  Claim C6. Frame coverage: for every frame index from \<open>1\<close> to \<open>totalFrames\<close> (that is, every
  \<open>frameNumber\<close> from \<open>0\<close> below \<open>totalFrames\<close>) the lookup in the schedule yields an entry of
  the timeline or nothing, and the pass of the loop body for it never ends in a
  \<open>TypeError\<close>; a frame with no claimant has the empty list of lines, which the renderer
  turns into the background alone, and, when its file does not exist and can be written,
  that blank image is written and the progress event is emitted.
\<close>

theorem frame_coverage_total:
  assumes "0 < fps" and "totalFrames fdiv fps timeline = Inr totalF"
    and "0 \<le> n" and "n < totalF"
  shows "(frameToItem fdiv fps timeline n = None \<or>
            (\<exists>e\<in>set timeline. frameToItem fdiv fps timeline n = Some e \<and>
               textLinesAt (frameToItem fdiv fps timeline) n = texts e))
       \<and> generateFrame fdiv join config (frameToItem fdiv fps timeline) framesDir cb totalF n w \<noteq> Inl TypeError
       \<and> (frameToItem fdiv fps timeline n = None \<longrightarrow>
            textLinesAt (frameToItem fdiv fps timeline) n = []
            \<and> renderFrame fdiv config (textLinesAt (frameToItem fdiv fps timeline) n) =
                \<lparr>background = backgroundColor config, drawn = []\<rparr>
            \<and> (\<not> existsSync w (framePath join framesDir n) \<and>
                \<not> writeRejected w (framePath join framesDir n) \<longrightarrow>
                generateFrame fdiv join config (frameToItem fdiv fps timeline) framesDir cb totalF n w =
                  Inr (notify cb (n + 1, totalF, framePath join framesDir n)
                        (w\<lparr>renderCalls := renderCalls w @ [(n, [])],
                           files := (files w)(framePath join framesDir n \<mapsto>
                              \<lparr>background = backgroundColor config, drawn = []\<rparr>)\<rparr>))))"
proof (intro conjI impI)
  show "frameToItem fdiv fps timeline n = None \<or>
            (\<exists>e\<in>set timeline. frameToItem fdiv fps timeline n = Some e \<and>
               textLinesAt (frameToItem fdiv fps timeline) n = texts e)"
  proof (cases "frameToItem fdiv fps timeline n")
    case None
    then show ?thesis by simp
  next
    case (Some e)
    with frameToItem_source [OF Some] show ?thesis
      by (simp add: textLinesAt_def)
  qed
next
  show "generateFrame fdiv join config (frameToItem fdiv fps timeline) framesDir cb totalF n w \<noteq> Inl TypeError"
    by (rule generateFrame_no_TypeError)
next
  assume blank: "frameToItem fdiv fps timeline n = None"
  then show lines: "textLinesAt (frameToItem fdiv fps timeline) n = []"
    by (simp add: textLinesAt_def)
  then show "renderFrame fdiv config (textLinesAt (frameToItem fdiv fps timeline) n) =
                \<lparr>background = backgroundColor config, drawn = []\<rparr>"
    by (simp add: renderFrame_no_lines)
  assume "\<not> existsSync w (framePath join framesDir n) \<and>
                \<not> writeRejected w (framePath join framesDir n)"
  then show "generateFrame fdiv join config (frameToItem fdiv fps timeline) framesDir cb totalF n w =
                  Inr (notify cb (n + 1, totalF, framePath join framesDir n)
                        (w\<lparr>renderCalls := renderCalls w @ [(n, [])],
                           files := (files w)(framePath join framesDir n \<mapsto>
                              \<lparr>background = backgroundColor config, drawn = []\<rparr>)\<rparr>))"
    using lines by (simp add: generateFrame_render renderFrame_no_lines)
qed

text \<open>A timeline whose one entry starts at \<open>1000\<close>: at one frame per second the first of the
  two frames has no claimant.\<close>

theorem frame_coverage_total_witness:
  "totalFrames (/) 1 [\<lparr>texts = [Some ''hello'', Some ''bonjour''], offset = 1000, duration = 1000\<rparr>] = Inr 2
   \<and> frameToItem (/) 1 [\<lparr>texts = [Some ''hello'', Some ''bonjour''], offset = 1000, duration = 1000\<rparr>] 0 = None
   \<and> frameToItem (/) 1 [\<lparr>texts = [Some ''hello'', Some ''bonjour''], offset = 1000, duration = 1000\<rparr>] 1
       = Some \<lparr>texts = [Some ''hello'', Some ''bonjour''], offset = 1000, duration = 1000\<rparr>
   \<and> generateFrame (/) simpleJoin demoConfig
        (frameToItem (/) 1 [\<lparr>texts = [Some ''hello'', Some ''bonjour''], offset = 1000, duration = 1000\<rparr>])
        ''frames'' True 2 0 emptyWorld
       = Inr \<lparr>files = [''frames/frame_00000001.png'' \<mapsto> \<lparr>background = ''#000000'', drawn = []\<rparr>],
              writeRejected = (\<lambda>path. False),
              progress = [(1, 2, ''frames/frame_00000001.png'')],
              renderCalls = [(0, [])]\<rparr>"
proof -
  let ?tl = "[\<lparr>texts = [Some ''hello'', Some ''bonjour''], offset = 1000, duration = 1000\<rparr>]"
  have pos: "(0::real) < 1" by simp
  have tf: "totalFrames (/) 1 ?tl = Inr 2"
    by (simp add: totalFrames_def totalDuration_def frameDuration_def)
  have f0: "frameToItem (/) 1 ?tl 0 = None" and f1: "frameToItem (/) 1 ?tl 1 = Some (hd ?tl)"
    by (simp_all add: frameToItem_single claims_iff)
  from frame_coverage_total [where fdiv = "(/)" and n = 0 and join = simpleJoin and
      config = demoConfig and framesDir = "''frames''" and cb = True and w = emptyWorld, OF pos tf] f0
  have "generateFrame (/) simpleJoin demoConfig (frameToItem (/) 1 ?tl) ''frames'' True 2 0 emptyWorld
       = Inr \<lparr>files = [''frames/frame_00000001.png'' \<mapsto> \<lparr>background = ''#000000'', drawn = []\<rparr>],
              writeRejected = (\<lambda>path. False),
              progress = [(1, 2, ''frames/frame_00000001.png'')],
              renderCalls = [(0, [])]\<rparr>"
    by (simp add: framePath_examples existsSync_def emptyWorld_def notify_def demoConfig_def)
  with tf f0 f1 show ?thesis by simp
qed

text \<open>
  Claim C7, as stated, fails on a frame with no active entry: with two participating
  languages and an entry that starts at \<open>1000\<close>, the renderer is called for the first frame
  with the empty list of lines, not with a list of two.
\<close>

theorem renderer_lines_counterexample:
  "length [\<lparr>lang = ''en'', items = [\<lparr>texts = [Some ''hello''], offset = 1000, duration = 1000\<rparr>]\<rparr>,
           \<lparr>lang = ''fr'', items = [\<lparr>texts = [Some ''bonjour''], offset = 1000, duration = 1000\<rparr>]\<rparr>] = 2
   \<and> generateFrames (/) simpleJoin demoConfig
       (mergeTranscripts
          [\<lparr>lang = ''en'', items = [\<lparr>texts = [Some ''hello''], offset = 1000, duration = 1000\<rparr>]\<rparr>,
           \<lparr>lang = ''fr'', items = [\<lparr>texts = [Some ''bonjour''], offset = 1000, duration = 1000\<rparr>]\<rparr>])
       ''frames'' 1 True emptyWorld
     = Inr ((2, 2000),
       \<lparr>files = [''frames/frame_00000001.png'' \<mapsto> renderFrame (/) demoConfig [],
                 ''frames/frame_00000002.png'' \<mapsto> renderFrame (/) demoConfig [Some ''hello'', Some ''bonjour'']],
        writeRejected = (\<lambda>path. False),
        progress = [(1, 2, ''frames/frame_00000001.png''), (2, 2, ''frames/frame_00000002.png'')],
        renderCalls = [(0, []), (1, [Some ''hello'', Some ''bonjour''])]\<rparr>)"
proof -
  have "mergeTranscripts
          [\<lparr>lang = ''en'', items = [\<lparr>texts = [Some ''hello''], offset = 1000, duration = 1000\<rparr>]\<rparr>,
           \<lparr>lang = ''fr'', items = [\<lparr>texts = [Some ''bonjour''], offset = 1000, duration = 1000\<rparr>]\<rparr>]
        = [\<lparr>texts = [Some ''hello'', Some ''bonjour''], offset = 1000, duration = 1000\<rparr>]"
    by (simp add: mergeTranscripts_Cons firstText_def matchText_def findMatch_def)
  then show ?thesis
    by (simp add: run1)
qed

text \<open>
  Claim C7, amended. In a run of the driver on the timeline that the aligner makes from a
  non-empty list of tracks, every call of the renderer for a frame with an active entry
  receives the texts of that entry, one for each track merged; every call for a frame with
  no active entry receives the empty list.
\<close>

theorem renderer_input_shape:
  assumes "generateFrames fdiv join config (mergeTranscripts (base # others)) framesDir fps cb w = Inr (r, w1)"
  shows "\<exists>new. renderCalls w1 = renderCalls w @ new \<and>
     (\<forall>(k, ls)\<in>set new.
        (case frameToItem fdiv fps (mergeTranscripts (base # others)) k of
           None \<Rightarrow> ls = []
         | Some e \<Rightarrow> ls = texts e \<and> length ls = length (base # others)))"
proof -
  let ?tl = "mergeTranscripts (base # others)"
  obtain totalF d where r: "r = (totalF, d)" by (cases r)
  note run = generateFrames_Inr [OF assms [unfolded r]]
  from frameLoop_files [OF run(3)] obtain new where
    new: "renderCalls w1 = renderCalls w @ new" and
    each: "\<forall>(k, ls)\<in>set new. 0 \<le> k \<and> k < totalF \<and> ls = textLinesAt (frameToItem fdiv fps ?tl) k \<and>
                                 files w (framePath join framesDir k) = None"
    by blast
  have "case frameToItem fdiv fps ?tl k of
           None \<Rightarrow> ls = []
         | Some e \<Rightarrow> ls = texts e \<and> length ls = length (base # others)"
    if "(k, ls) \<in> set new" for k ls
  proof -
    from that each have ls: "ls = textLinesAt (frameToItem fdiv fps ?tl) k" by blast
    show ?thesis
    proof (cases "frameToItem fdiv fps ?tl k")
      case None
      with ls show ?thesis by (simp add: textLinesAt_def)
    next
      case (Some e)
      from frameToItem_source [OF Some] have "e \<in> set ?tl" by simp
      then have "length (texts e) = length (base # others)"
        by (auto simp: mergeTranscripts_Cons)
      with Some ls show ?thesis by (simp add: textLinesAt_def)
    qed
  qed
  with new show ?thesis by (intro exI [of _ new]) auto
qed

text \<open>The two renderer calls of the run above: the empty list, then a list of two.\<close>

theorem renderer_input_shape_witness:
  "(case frameToItem (/) 1 [\<lparr>texts = [Some ''hello'', Some ''bonjour''], offset = 1000, duration = 1000\<rparr>] 0 of
      None \<Rightarrow> [] = ([] :: string option list)
    | Some e \<Rightarrow> [] = texts e \<and> length ([] :: string option list) = 2)
   \<and> (case frameToItem (/) 1 [\<lparr>texts = [Some ''hello'', Some ''bonjour''], offset = 1000, duration = 1000\<rparr>] 1 of
      None \<Rightarrow> [Some ''hello'', Some ''bonjour''] = []
    | Some e \<Rightarrow> [Some ''hello'', Some ''bonjour''] = texts e
        \<and> length [Some ''hello'', Some ''bonjour''] = 2)"
proof -
  have m: "mergeTranscripts
          [\<lparr>lang = ''en'', items = [\<lparr>texts = [Some ''hello''], offset = 1000, duration = 1000\<rparr>]\<rparr>,
           \<lparr>lang = ''fr'', items = [\<lparr>texts = [Some ''bonjour''], offset = 1000, duration = 1000\<rparr>]\<rparr>]
        = [\<lparr>texts = [Some ''hello'', Some ''bonjour''], offset = 1000, duration = 1000\<rparr>]"
    by (simp add: mergeTranscripts_Cons firstText_def matchText_def findMatch_def)
  have run: "generateFrames (/) simpleJoin demoConfig
       (mergeTranscripts
          (\<lparr>lang = ''en'', items = [\<lparr>texts = [Some ''hello''], offset = 1000, duration = 1000\<rparr>]\<rparr> #
           [\<lparr>lang = ''fr'', items = [\<lparr>texts = [Some ''bonjour''], offset = 1000, duration = 1000\<rparr>]\<rparr>]))
       ''frames'' 1 True emptyWorld
     = Inr ((2, 2000),
       \<lparr>files = [''frames/frame_00000001.png'' \<mapsto> renderFrame (/) demoConfig [],
                 ''frames/frame_00000002.png'' \<mapsto> renderFrame (/) demoConfig [Some ''hello'', Some ''bonjour'']],
        writeRejected = (\<lambda>path. False),
        progress = [(1, 2, ''frames/frame_00000001.png''), (2, 2, ''frames/frame_00000002.png'')],
        renderCalls = [(0, []), (1, [Some ''hello'', Some ''bonjour''])]\<rparr>)"
    by (simp add: m run1)
  from renderer_input_shape [OF run] show ?thesis
    by (simp add: emptyWorld_def m frameToItem_single claims_iff)
qed

section \<open>Properties of the cue parser\<close>

text \<open>The pattern on a well-formed header line, and the two branches of the loop over the
  lines.\<close>

lemma takeDigits_append:
  "length ds = n \<Longrightarrow> list_all isDigit ds \<Longrightarrow> takeDigits n (ds @ rest) = Some (ds, rest)"
  by (induction ds arbitrary: n) auto

lemma takeLiteral_append: "takeLiteral p (p @ rest) = Some rest"
  by (induction p) auto

lemma matchTimestamp_text:
  assumes "wellFormedTime g"
  shows "matchTimestamp (timestampText g @ rest) = Some (g, rest)"
proof -
  obtain h m s ms where g: "g = (h, m, s, ms)" by (cases g)
  with assms have len: "length h = 2" "length m = 2" "length s = 2" "length ms = 3"
    and dig: "list_all isDigit h" "list_all isDigit m" "list_all isDigit s" "list_all isDigit ms"
    by (simp_all add: wellFormedTime_def)
  have 1: "takeDigits 2 (h @ '':'' @ m @ '':'' @ s @ ''.'' @ ms @ rest)
      = Some (h, '':'' @ m @ '':'' @ s @ ''.'' @ ms @ rest)"
    using len(1) dig(1) by (rule takeDigits_append)
  have 2: "takeDigits 2 (m @ '':'' @ s @ ''.'' @ ms @ rest) = Some (m, '':'' @ s @ ''.'' @ ms @ rest)"
    using len(2) dig(2) by (rule takeDigits_append)
  have 3: "takeDigits 2 (s @ ''.'' @ ms @ rest) = Some (s, ''.'' @ ms @ rest)"
    using len(3) dig(3) by (rule takeDigits_append)
  have 4: "takeDigits 3 (ms @ rest) = Some (ms, rest)"
    using len(4) dig(4) by (rule takeDigits_append)
  have lit: "takeLiteral '':'' ('':'' @ xs) = Some xs" "takeLiteral ''.'' (''.'' @ xs) = Some xs" for xs
    by (rule takeLiteral_append)+
  show ?thesis
    unfolding matchTimestamp_def g timestampText_def
    by (simp only: prod.case append_assoc 1 2 3 4 lit bind.bind_lunit)
qed

lemma matchTimeRegexAt_header:
  assumes "wellFormedTime a" and "wellFormedTime b"
  shows "matchTimeRegexAt (headerLine a b @ rest) = Some (a, b)"
proof -
  have 1: "matchTimestamp (timestampText a @ '' --> '' @ timestampText b @ rest)
      = Some (a, '' --> '' @ timestampText b @ rest)"
    using assms(1) by (rule matchTimestamp_text)
  have 2: "takeLiteral '' --> '' ('' --> '' @ timestampText b @ rest) = Some (timestampText b @ rest)"
    by (rule takeLiteral_append)
  have 3: "matchTimestamp (timestampText b @ rest) = Some (b, rest)"
    using assms(2) by (rule matchTimestamp_text)
  show ?thesis
    unfolding matchTimeRegexAt_def headerLine_def
    by (simp only: append_assoc 1 2 3 bind.bind_lunit prod.case)
qed

lemma timeRegexMatch_at_start:
  "matchTimeRegexAt s = Some g \<Longrightarrow> timeRegexMatch s = Some g"
  by (cases s) simp_all

lemma timeRegexMatch_later:
  "timeRegexMatch s \<noteq> None \<Longrightarrow> timeRegexMatch (pre @ s) \<noteq> None"
  by (induction pre) (auto split: option.splits)

lemma isDigit_not_space: "isDigit c \<Longrightarrow> \<not> isWhiteSpace c"
  by (auto simp: isDigit_def isWhiteSpace_def)

lemma trim_id:
  "s \<noteq> [] \<Longrightarrow> \<not> isWhiteSpace (hd s) \<Longrightarrow> \<not> isWhiteSpace (last s) \<Longrightarrow> trim s = s"
proof -
  assume ne: "s \<noteq> []" and h: "\<not> isWhiteSpace (hd s)" and l: "\<not> isWhiteSpace (last s)"
  from ne h have 1: "dropWhile isWhiteSpace s = s"
    by (cases s) simp_all
  from ne l have 2: "dropWhile isWhiteSpace (rev s) = rev s"
    by (cases "rev s") (simp_all add: last_rev [symmetric] hd_rev)
  show ?thesis by (simp add: trim_def 1 2)
qed

lemma trim_header:
  assumes "wellFormedTime a" and "wellFormedTime b"
  shows "trim (headerLine a b) = headerLine a b"
proof -
  obtain h m s ms where a: "a = (h, m, s, ms)" by (cases a)
  obtain h' m' s' ms' where b: "b = (h', m', s', ms')" by (cases b)
  from assms(1) a have hl: "length h = 2" "list_all isDigit h"
    by (simp_all add: wellFormedTime_def)
  from hl(1) have hne: "h \<noteq> []" by auto
  with hl(2) have h: "h \<noteq> []" "isDigit (hd h)"
    by (simp_all add: list_all_iff)
  from assms(2) b have ml: "length ms' = 3" "list_all isDigit ms'"
    by (simp_all add: wellFormedTime_def)
  from ml(1) have mne: "ms' \<noteq> []" by auto
  with ml(2) have ms': "ms' \<noteq> []" "isDigit (last ms')"
    by (simp_all add: list_all_iff)
  have "hd (headerLine a b) = hd h"
    using h(1) by (simp add: headerLine_def timestampText_def a)
  moreover have "last (headerLine a b) = last ms'"
    using ms'(1) by (simp add: headerLine_def timestampText_def b)
  moreover have "headerLine a b \<noteq> []"
    by (simp add: headerLine_def)
  ultimately show ?thesis
    using h(2) ms'(2) by (intro trim_id) (simp_all add: isDigit_not_space)
qed

lemma splitOn_line:
  "sep \<notin> set l \<Longrightarrow> splitOn sep (l @ sep # doc) = l # splitOn sep doc"
  by (induction l) (auto split: list.splits)

lemma parseLines_skip:
  "timeRegexMatch (trim l) = None \<Longrightarrow> parseLines (l # ls) acc = parseLines ls acc"
  by simp

lemma parseLines_header:
  "timeRegexMatch (trim l) = Some (a, b) \<Longrightarrow>
     parseLines (l # ls) acc =
       parseLines (drop 1 (snd (collectText ls [])))
         (if fst (collectText ls []) \<noteq> []
          then acc @ [\<lparr>texts = [Some (joinWith '' '' (fst (collectText ls [])))],
                       offset = real (timeMs a),
                       duration = real_of_int (int (timeMs b) - int (timeMs a))\<rparr>]
          else acc)"
  by (simp add: Let_def)











text \<open>
  Claim C8, as stated, fails for a header with a single-digit hour field: the pattern asks
  for two digits in each hour field, so the line is not recognized, and the text under it
  gives no cue.
\<close>

theorem single_digit_hour_counterexample:
  "timeRegexMatch (trim ''1:23:45.678 --> 1:23:46.000'') = None
   \<and> parseLines [''1:23:45.678 --> 1:23:46.000'', ''hello'', ''''] [] = []"
proof -
  have 1: "timeRegexMatch (trim ''1:23:45.678 --> 1:23:46.000'') = None" by code_simp
  have 2: "timeRegexMatch (trim ''hello'') = None" by code_simp
  have 3: "timeRegexMatch (trim '''') = None" by code_simp
  show ?thesis by (simp add: 1 2 3)
qed

text \<open>
  Claim C8, amended. The parser recognizes a time-range header of the form
  \<open>HH:MM:SS.mmm --> HH:MM:SS.mmm\<close>, with two digits in each hour field: the trimmed line
  matches with the eight fields as its groups, the match is found wherever the header
  stands in a line, and the fields give the offset and the duration of the cue of the
  block. A line that does not match is skipped: the loop goes on with the next line, and a
  document gives the same cues with or without such a first line.
\<close>

theorem header_recognition:
  assumes "wellFormedTime a" and "wellFormedTime b"
  shows "timeRegexMatch (trim (headerLine a b)) = Some (a, b)
       \<and> timeRegexMatch (pre @ headerLine a b @ post) \<noteq> None
       \<and> parseLines (headerLine a b # ls) acc =
           parseLines (drop 1 (snd (collectText ls [])))
             (if fst (collectText ls []) \<noteq> []
              then acc @ [\<lparr>texts = [Some (joinWith '' '' (fst (collectText ls [])))],
                           offset = real (timeMs a),
                           duration = real_of_int (int (timeMs b) - int (timeMs a))\<rparr>]
              else acc)
       \<and> (timeRegexMatch (trim l) = None \<longrightarrow> parseLines (l # ls) acc = parseLines ls acc)
       \<and> (timeRegexMatch (trim l) = None \<and> CHR 0x0A \<notin> set l \<longrightarrow>
            parseVTT (l @ CHR 0x0A # doc) = parseVTT doc)"
proof -
  have at: "matchTimeRegexAt (headerLine a b @ rest) = Some (a, b)" for rest
    using assms by (rule matchTimeRegexAt_header)
  have m: "timeRegexMatch (headerLine a b @ rest) = Some (a, b)" for rest
    using at by (rule timeRegexMatch_at_start)
  have r: "timeRegexMatch (trim (headerLine a b)) = Some (a, b)"
    using m [of "[]"] by (simp add: trim_header [OF assms])
  have anywhere: "timeRegexMatch (pre @ headerLine a b @ post) \<noteq> None"
    using m [of post] timeRegexMatch_later [of "headerLine a b @ post" pre] by simp
  have block: "parseLines (headerLine a b # ls) acc =
           parseLines (drop 1 (snd (collectText ls [])))
             (if fst (collectText ls []) \<noteq> []
              then acc @ [\<lparr>texts = [Some (joinWith '' '' (fst (collectText ls [])))],
                           offset = real (timeMs a),
                           duration = real_of_int (int (timeMs b) - int (timeMs a))\<rparr>]
              else acc)"
    using r by (rule parseLines_header)
  have skip: "timeRegexMatch (trim l) = None \<longrightarrow> parseLines (l # ls) acc = parseLines ls acc"
    by (simp add: parseLines_skip)
  have skipdoc: "timeRegexMatch (trim l) = None \<and> CHR 0x0A \<notin> set l \<longrightarrow>
            parseVTT (l @ CHR 0x0A # doc) = parseVTT doc"
    by (simp add: parseVTT_def splitOn_line parseLines_skip)
  from r anywhere block skip skipdoc show ?thesis by blast
qed

text \<open>A header with two-digit hours after a line that is not a header.\<close>

theorem header_recognition_witness:
  "timeRegexMatch (trim ''01:23:45.678 --> 01:23:46.000'')
     = Some ((''01'', ''23'', ''45'', ''678''), (''01'', ''23'', ''46'', ''000''))
   \<and> parseLines [''NOTE x'', ''01:23:45.678 --> 01:23:46.000'', ''<b>hello</b>'', ''''] []
     = [\<lparr>texts = [Some ''hello''], offset = 5025678, duration = 322\<rparr>]"
proof -
  let ?a = "(''01'', ''23'', ''45'', ''678'')" and ?b = "(''01'', ''23'', ''46'', ''000'')"
  have wa: "wellFormedTime ?a" and wb: "wellFormedTime ?b"
    by (simp_all add: wellFormedTime_def isDigit_def)
  have hl: "headerLine ?a ?b = ''01:23:45.678 --> 01:23:46.000''"
    by (simp add: headerLine_def timestampText_def)
  have note_line: "timeRegexMatch (trim ''NOTE x'') = None" by code_simp
  have ct: "collectText [''<b>hello</b>'', ''''] [] = ([''hello''], [''''])" by code_simp
  have ta: "timeMs ?a = 5025678" and tb: "timeMs ?b = 5026000"
    by (simp_all add: timeMs_def parseInt_def digitValue_def)
  note inst = header_recognition [OF wa wb, of "[]" "[]" "[''<b>hello</b>'', '''']" "[]" "''NOTE x''" "[]",
      unfolded hl]
  have 1: "timeRegexMatch (trim ''01:23:45.678 --> 01:23:46.000'') = Some (?a, ?b)"
    by (rule inst [THEN conjunct1])
  have "parseLines [''01:23:45.678 --> 01:23:46.000'', ''<b>hello</b>'', ''''] [] =
      parseLines (drop 1 (snd (collectText [''<b>hello</b>'', ''''] [])))
             (if fst (collectText [''<b>hello</b>'', ''''] []) \<noteq> []
              then [] @ [\<lparr>texts = [Some (joinWith '' '' (fst (collectText [''<b>hello</b>'', ''''] [])))],
                           offset = real (timeMs ?a),
                           duration = real_of_int (int (timeMs ?b) - int (timeMs ?a))\<rparr>]
              else [])"
    by (rule inst [THEN conjunct2, THEN conjunct2, THEN conjunct1])
  also have "\<dots> = [\<lparr>texts = [Some ''hello''], offset = 5025678, duration = 322\<rparr>]"
    by (simp only: ct ta tb fst_conv snd_conv) simp
  finally have 2: "parseLines [''01:23:45.678 --> 01:23:46.000'', ''<b>hello</b>'', ''''] []
     = [\<lparr>texts = [Some ''hello''], offset = 5025678, duration = 322\<rparr>]" .
  have 3: "parseLines [''NOTE x'', ''01:23:45.678 --> 01:23:46.000'', ''<b>hello</b>'', ''''] []
     = parseLines [''01:23:45.678 --> 01:23:46.000'', ''<b>hello</b>'', ''''] []"
    using note_line by (rule parseLines_skip)
  from 1 2 3 show ?thesis by (simp only: simp_thms)
qed



end
